theory Spec2Isabelle
  imports Complex_Main
begin

section \<open>Probe synchronisation (ibllib/ephys/sync\_probes.py)\<close>

text \<open>
  A shallow embedding of the module \<^verbatim>\<open>ibllib.ephys.sync_probes\<close>.

  Conventions of the embedding.
  \<^item> A \<^verbatim>\<open>float64\<close> is a real number, and outside \<^verbatim>\<open>apply_sync\<close> arithmetic is exact:
    there is no rounding and no overflow. Where \<^verbatim>\<open>scipy.interpolate.interp1d\<close> divides by
    a zero knot spacing its value is not finite; such values are kept as \<open>NaN\<close>, \<open>PInf\<close>
    and \<open>NInf\<close> of the type \<open>float\<close> below.
  \<^item> In \<^verbatim>\<open>apply_sync\<close>, where a round trip is exact or not by the last bit, every
    operation of the interpolant is rounded to binary64 as IEEE 754 does.
  \<^item> A one-dimensional array is a list; a table of shape \<open>(N, 2)\<close> is a list of rows, each
    row a pair (column 0, column 1).
  \<^item> A Python exception is a value \<open>Inl e\<close> of a sum type.
  \<^item> The log, the matplotlib figure and the \<^verbatim>\<open>.npy\<close> files on disk are the three fields
    of the record \<open>world\<close>, passed through every function that touches them.
\<close>

subsection \<open>Values, errors and the outside world\<close>

text \<open>
  The exceptions. A \<^verbatim>\<open>ValueError\<close> carries its message; where a library raises it, the
  message is abbreviated to the name of the library function.
\<close>

datatype error =
    ValueError string | TypeError | IndexError | KeyError | AssertionError | LinAlgError
  | FileNotFoundError

datatype float = Finite real | NaN | PInf | NInf

type_synonym table = "(real \<times> real) list"

text \<open>
  The two files \<^verbatim>\<open>_save_timestamps_npy\<close> derives from the path \<^verbatim>\<open>ephys_file.ap\<close>: the name
  with \<^verbatim>\<open>.ap.\<close> replaced by \<^verbatim>\<open>.sync.\<close>, respectively \<^verbatim>\<open>.timestamps.\<close>, and the suffix
  \<^verbatim>\<open>.npy\<close>. The argument is the path of the \<^verbatim>\<open>.ap.\<close> file they are derived from.
\<close>

datatype npy_file = SyncFile string | TimestampsFile string

text \<open>A record of the logger \<^verbatim>\<open>ibllib\<close>: the level and what the message is about.\<close>

datatype log_record =
    WarningSkipSingleProbe string
  | WarningFrame2ttlNotDetected
  | WarningDifferentPulseNumbers
  | ErrorToleranceExceeded real

text \<open>
  The \<^verbatim>\<open>display\<close> argument: a truth value, or a \<^verbatim>\<open>matplotlib.axes.Axes\<close> object (named by a
  number) to draw into. The calls made on matplotlib are recorded in order.
\<close>

datatype display = Flag bool | OnAxes nat

datatype axes = GivenAxes nat | NewAxes | CurrentAxes

datatype plot_call =
    CreateAxes
  | Plot axes "real list" "real list" string
  | SetXlabel axes string
  | SetYlabel axes string

record world =
  log :: "log_record list"
  figure :: "plot_call list"
  files :: "npy_file \<rightharpoonup> table"

definition logger :: "log_record \<Rightarrow> world \<Rightarrow> world" where
  "logger r w = w\<lparr>log := log w @ [r]\<rparr>"

definition draw :: "plot_call list \<Rightarrow> world \<Rightarrow> world" where
  "draw cs w = w\<lparr>figure := figure w @ cs\<rparr>"

definition np_save :: "npy_file \<Rightarrow> table \<Rightarrow> world \<Rightarrow> world" where
  "np_save f a w = w\<lparr>files := (files w)(f \<mapsto> a)\<rparr>"

subsection \<open>The library functions the module calls\<close>

text \<open>
  \<^verbatim>\<open>scipy.interpolate.interp1d(x, y, fill_value='extrapolate')\<close>, of kind \<^verbatim>\<open>linear\<close>. The
  constructor raises \<^verbatim>\<open>ValueError\<close> on an empty \<open>x\<close> and sorts the points by \<open>x\<close> with a
  stable sort (\<^verbatim>\<open>assume_sorted=False\<close>); a table has as many \<open>y\<close> as \<open>x\<close>.
\<close>

definition interp1d :: "table \<Rightarrow> error + table" where
  "interp1d pts = (if pts = [] then Inl (ValueError ''interp1d'') else Inr (sort_key fst pts))"

text \<open>\<^verbatim>\<open>numpy.searchsorted(x, v)\<close>, side \<^verbatim>\<open>left\<close>, on a sorted \<open>x\<close>: the first \<open>i\<close> with \<open>v \<le> x[i]\<close>.\<close>

definition searchsorted :: "real list \<Rightarrow> real \<Rightarrow> nat" where
  "searchsorted xs v = length (takeWhile (\<lambda>a. a < v) xs)"

text \<open>Python's indexing of a non-empty sequence, where a negative index counts from the end.\<close>

definition py_nth :: "'a list \<Rightarrow> int \<Rightarrow> 'a" where
  "py_nth xs i = xs ! nat (if i < 0 then int (length xs) + i else i)"

text \<open>
  The call of the interpolant at one abscissa (\<^verbatim>\<open>interp1d._call_linear\<close>):
  \<^verbatim>\<open>
    x_new_indices = searchsorted(self.x, x_new)
    x_new_indices = x_new_indices.clip(1, len(self.x)-1).astype(int)
    lo = x_new_indices - 1
    hi = x_new_indices
    slope = (y_hi - y_lo) / (x_hi - x_lo)
    y_new = slope*(x_new - x_lo) + y_lo
  \<close>
  With a single knot \<open>hi = 0\<close> and \<open>lo = -1\<close> name the same row. Where \<open>x_hi = x_lo\<close> the
  slope is \<open>0 / 0\<close> or \<open>c / 0\<close> and the result is not a number or infinite.
\<close>

definition call_linear :: "table \<Rightarrow> real \<Rightarrow> float" where
  "call_linear ks x_new =
     (let n = int (length ks);
          hi = min (n - 1) (max (int (searchsorted (map fst ks) x_new)) 1);
          lo = hi - 1;
          x_lo = fst (py_nth ks lo); y_lo = snd (py_nth ks lo);
          x_hi = fst (py_nth ks hi); y_hi = snd (py_nth ks hi)
      in if x_hi \<noteq> x_lo then Finite ((y_hi - y_lo) / (x_hi - x_lo) * (x_new - x_lo) + y_lo)
         else if y_hi = y_lo \<or> x_new = x_lo then NaN
         else if (y_lo < y_hi) = (x_lo < x_new) then PInf
         else NInf)"

subsection \<open>The arithmetic of binary64\<close>

text \<open>
  A finite float64 is \<open>\<plusminus> n * 2 ^ (e - 52)\<close> for an integer \<open>n < 2 ^ 53\<close> and an exponent \<open>e\<close> from
  \<open>-1022\<close> to \<open>1023\<close>. The exponent of a positive real \<open>x\<close> is the \<open>e\<close> with
  \<open>2 ^ e \<le> x < 2 ^ (e + 1)\<close>, kept between \<open>-1022\<close> (below it the numbers are subnormal, with
  the spacing \<open>2 ^ -1074\<close>) and \<open>1024\<close> (from where every number overflows).
\<close>

function exponent_up :: "real \<Rightarrow> int \<Rightarrow> int" where
  "exponent_up x e = (if 2 \<le> x \<and> e < 1024 then exponent_up (x / 2) (e + 1) else e)"
  by pat_completeness auto
termination
  by (relation "measure (\<lambda>(x, e). nat (1024 - e))") auto

function exponent_down :: "real \<Rightarrow> int \<Rightarrow> int" where
  "exponent_down x e = (if x < 1 \<and> - 1022 < e then exponent_down (2 * x) (e - 1) else e)"
  by pat_completeness auto
termination
  by (relation "measure (\<lambda>(x, e). nat (e + 1022))") auto

definition exponent :: "real \<Rightarrow> int" where
  "exponent x = (if 1 \<le> x then exponent_up x 0 else exponent_down x 0)"

text \<open>The nearest integer to a real that is not negative, a tie going to the even one.\<close>

definition round_half_even :: "real \<Rightarrow> int" where
  "round_half_even q =
     (let n = \<lfloor>q\<rfloor>; r = q - of_int n
      in if r < 1 / 2 then n else if 1 / 2 < r then n + 1 else if even n then n else n + 1)"

text \<open>
  The float64 nearest to a real (round to nearest, ties to even): the result of every
  arithmetic operation on finite operands is the exact result so rounded. A result of
  magnitude \<open>2 ^ 1024\<close> or more after rounding is infinite. The sign of a zero is not kept.
\<close>

definition round64 :: "real \<Rightarrow> float" where
  "round64 v =
     (if v = 0 then Finite 0
      else
        let ulp = 2 powi (exponent \<bar>v\<bar> - 52);
            r = of_int (round_half_even (\<bar>v\<bar> / ulp)) * ulp
        in if 2 ^ 1024 \<le> r then (if 0 < v then PInf else NInf)
           else Finite (if 0 < v then r else - r))"


definition inf_of :: "bool \<Rightarrow> float" where
  "inf_of positive = (if positive then PInf else NInf)"

text \<open>
  Addition, subtraction, multiplication and division of float64, with the infinities and
  the non-number as IEEE 754 has them. A zero divisor is the positive zero: the only
  divisor of the interpolant is the difference of two knots in increasing order.
\<close>

fun fneg :: "float \<Rightarrow> float" where
  "fneg (Finite a) = Finite (- a)"
| "fneg NaN = NaN"
| "fneg PInf = NInf"
| "fneg NInf = PInf"

fun fadd :: "float \<Rightarrow> float \<Rightarrow> float" where
  "fadd (Finite a) (Finite b) = round64 (a + b)"
| "fadd NaN b = NaN"
| "fadd a NaN = NaN"
| "fadd PInf NInf = NaN"
| "fadd NInf PInf = NaN"
| "fadd PInf b = PInf"
| "fadd a PInf = PInf"
| "fadd NInf b = NInf"
| "fadd a NInf = NInf"

definition fsub :: "float \<Rightarrow> float \<Rightarrow> float" where
  "fsub a b = fadd a (fneg b)"


fun fdiv :: "float \<Rightarrow> float \<Rightarrow> float" where
  "fdiv (Finite a) (Finite b) =
     (if b = 0 then (if a = 0 then NaN else inf_of (0 < a)) else round64 (a / b))"
| "fdiv NaN b = NaN"
| "fdiv a NaN = NaN"
| "fdiv (Finite a) PInf = Finite 0"
| "fdiv (Finite a) NInf = Finite 0"
| "fdiv PInf (Finite b) = inf_of (0 \<le> b)"
| "fdiv NInf (Finite b) = inf_of (b < 0)"
| "fdiv PInf PInf = NaN"
| "fdiv PInf NInf = NaN"
| "fdiv NInf PInf = NaN"
| "fdiv NInf NInf = NaN"

text \<open>
  The call of the interpolant at one abscissa as float64 computes it: the same rows as
  in \<open>call_linear\<close>, and
  \<^verbatim>\<open>
    slope = (y_hi - y_lo) / (x_hi - x_lo)
    y_new = slope*(x_new - x_lo) + y_lo
  \<close>
  with each of the two differences and the quotient (\<open>slope64\<close> of the two rows), the
  difference \<^verbatim>\<open>x_new - x_lo\<close>, the product and the sum rounded in turn. The knots and
  the abscissa are float64 numbers.
\<close>

definition slope64 :: "real \<times> real \<Rightarrow> real \<times> real \<Rightarrow> float" where
  "slope64 p_lo p_hi =
     fdiv (fsub (Finite (snd p_hi)) (Finite (snd p_lo)))
          (fsub (Finite (fst p_hi)) (Finite (fst p_lo)))"



subsection \<open>apply\_sync\<close>



subsection \<open>\_save\_timestamps\_npy\<close>

text \<open>
  \<^verbatim>\<open>
  def _save_timestamps_npy(ephys_file, tself_tref, sr):
      file_sync = ephys_file.ap.parent.joinpath(ephys_file.ap.name.replace('.ap.', '.sync.')
                                                ).with_suffix('.npy')
      np.save(file_sync, tself_tref)
      file_ts = ephys_file.ap.parent.joinpath(ephys_file.ap.name.replace('.ap.', '.timestamps.')
                                              ).with_suffix('.npy')
      timestamps = np.copy(tself_tref)
      timestamps[:, 0] *= np.float64(sr)
      np.save(file_ts, timestamps)
  \<close>
  The function reads the field \<^verbatim>\<open>ap\<close> of \<^verbatim>\<open>ephys_file\<close> only, so the model takes that path.
\<close>

definition save_timestamps_npy :: "string \<Rightarrow> table \<Rightarrow> real \<Rightarrow> world \<Rightarrow> world" where
  "save_timestamps_npy ap_path tself_tref sr w =
     (let file_sync = SyncFile ap_path;
          w1 = np_save file_sync tself_tref w;
          file_ts = TimestampsFile ap_path;
          timestamps = map (\<lambda>row. (fst row * sr, snd row)) tself_tref
      in np_save file_ts timestamps w1)"

subsection \<open>Least squares, polynomials and resampling\<close>

text \<open>
  \<^verbatim>\<open>numpy.polyfit(x, y, 1)\<close>: the coefficients \<open>[slope, intercept]\<close> of the least-squares
  line. numpy raises \<^verbatim>\<open>TypeError\<close> on an empty \<open>x\<close> and on vectors of different lengths.
  It scales the two columns \<open>x\<close> and \<open>1\<close> of the design matrix to unit norm and returns the
  minimum-norm least-squares solution, rescaled. Where the \<open>x\<close> are not all equal the
  matrix has full rank and this is the solution of the normal equations. Where all \<open>x\<close>
  are one value \<open>c \<noteq> 0\<close> the two scaled columns coincide up to sign and the minimum-norm
  solution gives each half of the mean of \<open>y\<close>. Where all \<open>x\<close> are zero the scaling divides
  by zero and the solver fails on the resulting non-numbers.
\<close>

definition polyfit :: "real list \<Rightarrow> real list \<Rightarrow> error + real list" where
  "polyfit x y =
     (if x = [] then Inl TypeError
      else if length x \<noteq> length y then Inl TypeError
      else
        let n = real (length x);
            sx = sum_list x; sy = sum_list y;
            sxx = sum_list (map (\<lambda>a. a * a) x);
            sxy = sum_list (map (\<lambda>(a, b). a * b) (zip x y))
        in if \<not> list_all (\<lambda>a. a = hd x) x then
             (let slope = (n * sxy - sx * sy) / (n * sxx - sx * sx)
              in Inr [slope, (sy - slope * sx) / n])
           else if hd x = 0 then Inl LinAlgError
           else Inr [sy / n / (2 * hd x), sy / n / 2])"

text \<open>\<^verbatim>\<open>numpy.polyval(p, x)\<close>, Horner's scheme from the highest coefficient.\<close>

definition polyval :: "real list \<Rightarrow> real \<Rightarrow> real" where
  "polyval p x = foldl (\<lambda>y pv. y * x + pv) 0 p"

text \<open>
  What a least-squares line minimises: the sum over the matched pairs of the squared
  distance between \<open>y\<close> and the line \<open>a * x + b\<close>.
\<close>

definition sum_sq_error :: "real list \<Rightarrow> real list \<Rightarrow> real \<Rightarrow> real \<Rightarrow> real" where
  "sum_sq_error x y a b = sum_list (map (\<lambda>(u, v). (v - (a * u + b))\<^sup>2) (zip x y))"

text \<open>\<^verbatim>\<open>numpy.arange(start, stop, step)\<close> for a positive step.\<close>

definition arange :: "real \<Rightarrow> real \<Rightarrow> real \<Rightarrow> real list" where
  "arange start stop step =
     map (\<lambda>i. start + real i * step) [0..<nat \<lceil>(stop - start) / step\<rceil>]"

text \<open>
  \<^verbatim>\<open>numpy.interp(x, xp, fp)\<close>: linear interpolation between the points \<open>(xp, fp)\<close>, constant
  outside them. numpy raises \<^verbatim>\<open>ValueError\<close> on an empty \<open>xp\<close> and on \<open>fp\<close> of another length;
  it does not check that \<open>xp\<close> increases, and what is written here is its value where
  \<open>xp\<close> does.
\<close>

definition interp_at :: "real list \<Rightarrow> real list \<Rightarrow> real \<Rightarrow> real" where
  "interp_at xp fp x =
     (if x < hd xp then hd fp
      else if last xp \<le> x then last fp
      else
        let j = length (takeWhile (\<lambda>a. a \<le> x) xp) - 1
        in if xp ! j = x then fp ! j
           else (fp ! (j + 1) - fp ! j) / (xp ! (j + 1) - xp ! j) * (x - xp ! j) + fp ! j)"

definition np_interp :: "real list \<Rightarrow> real list \<Rightarrow> real list \<Rightarrow> error + real list" where
  "np_interp x xp fp =
     (if xp = [] then Inl (ValueError ''interp'')
      else if length fp \<noteq> length xp then Inl (ValueError ''interp'')
      else Inr (map (interp_at xp fp) x))"

text \<open>\<^verbatim>\<open>numpy.median\<close> of a non-empty array.\<close>

definition median :: "real list \<Rightarrow> real" where
  "median a =
     (let s = sort a; n = length s
      in if even n then (s ! (n div 2 - 1) + s ! (n div 2)) / 2 else s ! (n div 2))"

text \<open>
  \<^verbatim>\<open>numpy.pad(a, (before, after), mode='median', stat_length=k)\<close>: each side is filled
  with the median of the \<open>k\<close> values (or of all, when there are fewer) at that end.
  numpy raises \<^verbatim>\<open>ValueError\<close> on an empty array.
\<close>

definition np_pad_median :: "real list \<Rightarrow> nat \<times> nat \<Rightarrow> nat \<Rightarrow> error + real list" where
  "np_pad_median a pad_width stat_length =
     (if a = [] then Inl (ValueError ''pad'')
      else Inr (replicate (fst pad_width) (median (take stat_length a)) @ a @
                replicate (snd pad_width) (median (drop (length a - stat_length) a))))"

text \<open>\<^verbatim>\<open>2 ** np.ceil(np.log2(n))\<close> for \<open>n \<ge> 1\<close>: the least power of two that is at least \<open>n\<close>.\<close>

function next_pow2_from :: "nat \<Rightarrow> nat \<Rightarrow> nat" where
  "next_pow2_from p n = (if p = 0 \<or> n \<le> p then p else next_pow2_from (2 * p) n)"
  by pat_completeness auto
termination
  by (relation "measure (\<lambda>(p, n). n - p)") auto

definition next_pow2 :: "nat \<Rightarrow> nat" where
  "next_pow2 n = next_pow2_from 1 n"

text \<open>The slice \<^verbatim>\<open>a[i:-j]\<close> for naturals \<open>i\<close> and \<open>j\<close>; \<^verbatim>\<open>a[i:-0]\<close> is \<^verbatim>\<open>a[i:0]\<close>, empty.\<close>

definition slice_to_neg :: "'a list \<Rightarrow> nat \<Rightarrow> nat \<Rightarrow> 'a list" where
  "slice_to_neg a i j = (if j = 0 then [] else drop i (take (length a - j) a))"

subsection \<open>sync\_probe\_front\_times\<close>

text \<open>
  The low-pass filter \<^verbatim>\<open>ibllib.dsp.lp(ts, si, b)\<close> is not part of the sources at hand; it
  is the parameter \<open>lp\<close> of the model, a function from the padded series, the sampling
  interval and the two corner frequencies to the filtered series.
\<close>

type_synonym lowpass = "real list \<Rightarrow> real \<Rightarrow> real list \<Rightarrow> real list"

definition CAMERA_UPSAMPLING_RATE_HZ :: nat where "CAMERA_UPSAMPLING_RATE_HZ = 300"
definition PAD_LENGTH_SECS :: nat where "PAD_LENGTH_SECS = 60"
definition STAT_LENGTH_SECS :: nat where "STAT_LENGTH_SECS = 30"
definition SYNC_SAMPLING_RATE_SECS :: nat where "SYNC_SAMPLING_RATE_SECS = 20"

text \<open>
  The smoothing of the residual, lines 172 to 184 of the source, up to the values added to
  the line at the output knots:
  \<^verbatim>\<open>
    t_upsamp = np.arange(tref[0], tref[-1], 1 / CAMERA_UPSAMPLING_RATE_HZ)
    res_upsamp = np.interp(t_upsamp, tref, residual)
    nech = res_upsamp.size + (CAMERA_UPSAMPLING_RATE_HZ * PAD_LENGTH_SECS)
    lpad = 2 ** np.ceil(np.log2(nech)) - res_upsamp.size
    lpad = [int(np.floor(lpad / 2) + lpad % 2), int(np.floor(lpad / 2))]
    res_filt = np.pad(res_upsamp, lpad, mode='median',
                      stat_length=CAMERA_UPSAMPLING_RATE_HZ * STAT_LENGTH_SECS)
    fbounds = [0.001, 0.002]
    res_filt = dsp.lp(res_filt, 1 / CAMERA_UPSAMPLING_RATE_HZ, fbounds)[lpad[0]:-lpad[1]]
    tout = np.arange(0, np.max(tref) + SYNC_SAMPLING_RATE_SECS, 20)
    ... np.interp(tout, t_upsamp, res_filt)
  \<close>
  The result is \<open>(t_upsamp, res_filt, tout, np.interp(tout, t_upsamp, res_filt))\<close>.
\<close>

definition smooth_residual ::
  "lowpass \<Rightarrow> real list \<Rightarrow> real list \<Rightarrow>
     error + (real list \<times> real list \<times> real list \<times> real list)" where
  "smooth_residual lp tref residual =
     (if tref = [] then Inl IndexError
      else
        let t_upsamp = arange (hd tref) (last tref) (1 / real CAMERA_UPSAMPLING_RATE_HZ)
        in (case np_interp t_upsamp tref residual of
              Inl e \<Rightarrow> Inl e
            | Inr res_upsamp \<Rightarrow>
                let nech = length res_upsamp + CAMERA_UPSAMPLING_RATE_HZ * PAD_LENGTH_SECS;
                    lpad = next_pow2 nech - length res_upsamp;
                    lpad0 = lpad div 2 + lpad mod 2;
                    lpad1 = lpad div 2
                in (case np_pad_median res_upsamp (lpad0, lpad1)
                           (CAMERA_UPSAMPLING_RATE_HZ * STAT_LENGTH_SECS) of
                      Inl e \<Rightarrow> Inl e
                    | Inr padded \<Rightarrow>
                        let fbounds = [1 / 1000, 2 / 1000];
                            res_filt = slice_to_neg
                              (lp padded (1 / real CAMERA_UPSAMPLING_RATE_HZ) fbounds)
                              lpad0 lpad1;
                            tout = arange 0 (Max (set tref) + real SYNC_SAMPLING_RATE_SECS) 20
                        in (case np_interp tout t_upsamp res_filt of
                              Inl e \<Rightarrow> Inl e
                            | Inr r \<Rightarrow> Inr (t_upsamp, res_filt, tout, r)))))"

text \<open>
  The test \<^verbatim>\<open>np.abs((tref - fcn(t)) * sr) > tol\<close> at one matched pair, \<open>tr\<close> the reference
  time and \<open>v\<close> the interpolant's value. A comparison with a non-number is false; an
  infinite value times a sampling rate other than zero is infinite.
\<close>

fun exceeds :: "real \<Rightarrow> real \<Rightarrow> real \<Rightarrow> float \<Rightarrow> bool" where
  "exceeds sr tol tr (Finite y) = (tol < \<bar>(tr - y) * sr\<bar>)"
| "exceeds sr tol tr NaN = False"
| "exceeds sr tol tr PInf = (sr \<noteq> 0)"
| "exceeds sr tol tr NInf = (sr \<noteq> 0)"

text \<open>The axes the non-linear branch draws into: \<^verbatim>\<open>display\<close> itself, or \<^verbatim>\<open>plt.axes()\<close>.\<close>

fun is_set :: "display \<Rightarrow> bool" where
  "is_set (Flag b) = b"
| "is_set (OnAxes a) = True"

fun residual_plots ::
  "display \<Rightarrow> real \<Rightarrow> real list \<Rightarrow> real list \<Rightarrow> real list \<Rightarrow> real list \<Rightarrow> real list \<Rightarrow>
     real list \<Rightarrow> plot_call list" where
  "residual_plots (OnAxes a) sr tref residual t_upsamp res_filt tout r =
     [Plot (GivenAxes a) tref (map (\<lambda>v. v * sr) residual) [],
      Plot (GivenAxes a) t_upsamp (map (\<lambda>v. v * sr) res_filt) [],
      Plot (GivenAxes a) tout (map (\<lambda>v. v * sr) r) ''*'',
      SetXlabel (GivenAxes a) ''time (sec)'',
      SetYlabel (GivenAxes a) ''Residual drift (samples @ 30kHz)'']"
| "residual_plots (Flag b) sr tref residual t_upsamp res_filt tout r =
     [CreateAxes,
      Plot NewAxes tref (map (\<lambda>v. v * sr) residual) [],
      Plot NewAxes t_upsamp (map (\<lambda>v. v * sr) res_filt) [],
      Plot NewAxes tout (map (\<lambda>v. v * sr) r) ''*'',
      SetXlabel NewAxes ''time (sec)'',
      SetYlabel NewAxes ''Residual drift (samples @ 30kHz)'']"

text \<open>
  \<^verbatim>\<open>
  def sync_probe_front_times(t, tref, sr, display=False, linear=False, tol=2.0):
      qc = True
      pol = np.polyfit(t, tref, 1)  # higher order terms first: slope / int for linear
      residual = tref - np.polyval(pol, t)
      if not linear:
          (the smoothing above)
          sync_points = np.c_[tout, np.polyval(pol, tout) + np.interp(tout, t_upsamp, res_filt)]
          if display:
              if isinstance(display, matplotlib.axes.Axes):
                  ax = display
              else:
                  ax = plt.axes()
              ax.plot(tref, residual * sr)
              ax.plot(t_upsamp, res_filt * sr)
              ax.plot(tout, np.interp(tout, t_upsamp, res_filt) * sr, '*')
              ax.set_xlabel('time (sec)')
              ax.set_ylabel('Residual drift (samples @ 30kHz)')
      else:
          sync_points = np.c_[np.array([0., 1.]), np.polyval(pol, np.array([0., 1.]))]
          if display:
              plt.plot(tref, residual * sr)
              plt.ylabel('Residual drift (samples @ 30kHz)')
              plt.xlabel('time (sec)')
      # test that the interp is within tol sample
      fcn = interp1d(sync_points[:, 0], sync_points[:, 1], fill_value='extrapolate')
      if np.any(np.abs((tref - fcn(t)) * sr) > (tol)):
          _logger.error(f'Synchronization check exceeds tolerance of {tol} samples. Check !!')
          qc = False
      return sync_points, qc
  \<close>
  An exception leaves the function with the world as it is at that point. The argument
  \<^verbatim>\<open>linear\<close> is \<open>linear_only\<close> here.
\<close>

definition sync_probe_front_times ::
  "lowpass \<Rightarrow> real list \<Rightarrow> real list \<Rightarrow> real \<Rightarrow> display \<Rightarrow> bool \<Rightarrow> real \<Rightarrow> world \<Rightarrow>
     (error + table \<times> bool) \<times> world" where
  "sync_probe_front_times lp t tref sr display linear_only tol w =
     (case polyfit t tref of
        Inl e \<Rightarrow> (Inl e, w)
      | Inr pol \<Rightarrow>
          let residual = map (\<lambda>(a, b). a - b) (zip tref (map (polyval pol) t))
          in (case (if \<not> linear_only then
                     (case smooth_residual lp tref residual of
                        Inl e \<Rightarrow> Inl e
                      | Inr (t_upsamp, res_filt, tout, r) \<Rightarrow>
                          Inr (zip tout (map (\<lambda>(a, b). a + b) (zip (map (polyval pol) tout) r)),
                               if is_set display
                               then draw (residual_plots display sr tref residual
                                            t_upsamp res_filt tout r) w
                               else w))
                   else
                     Inr ([(0, polyval pol 0), (1, polyval pol 1)],
                          if is_set display
                          then draw [Plot CurrentAxes tref (map (\<lambda>v. v * sr) residual) [],
                                     SetYlabel CurrentAxes ''Residual drift (samples @ 30kHz)'',
                                     SetXlabel CurrentAxes ''time (sec)''] w
                          else w)) of
               Inl e \<Rightarrow> (Inl e, w)
             | Inr (sync_points, w1) \<Rightarrow>
                 (case interp1d sync_points of
                    Inl e \<Rightarrow> (Inl e, w1)
                  | Inr fcn \<Rightarrow>
                      if list_ex (\<lambda>(tr, ti). exceeds sr tol tr (call_linear fcn ti)) (zip tref t)
                      then (Inr (sync_points, False), logger (ErrorToleranceExceeded tol) w1)
                      else (Inr (sync_points, True), w1))))"

subsection \<open>Sessions\<close>

text \<open>
  The object \<^verbatim>\<open>_spikeglx_sync\<close> that \<^verbatim>\<open>alf.io.load_object\<close> returns for a probe: the
  channel and the time of every detected front, as two arrays.
\<close>

record sync_object =
  channels :: "int list"
  front_times :: "real list"

text \<open>
  An entry of \<^verbatim>\<open>spikeglx.glob_ephys_files(ses_path)\<close>, with what the module reads from the
  files of the probe: the path \<^verbatim>\<open>ap\<close> of the binary file, the path \<^verbatim>\<open>nidq\<close> (set for the
  entry of the shared acquisition unit of a 3B session only), the sync object, the
  channel map \<^verbatim>\<open>get_ibl_sync_map\<close> gives, and the sampling rate \<^verbatim>\<open>_get_sr\<close> reads from
  the meta-data file.
\<close>

record ephys_file =
  ap :: string
  nidq :: "string option"
  sync_obj :: sync_object
  sync_map :: "string \<rightharpoonup> int"
  fs :: real

record session =
  ses_path :: string
  neuropixel_version :: string
  ephys_files :: "ephys_file list"

text \<open>The dictionary \<open>d\<close> of \<^verbatim>\<open>get_sync_fronts\<close>: \<^verbatim>\<open>d['times']\<close> and \<^verbatim>\<open>d['nsync']\<close>.\<close>

record fronts =
  times_list :: "real list list"
  nsync :: "nat list"

text \<open>The boolean-mask selection \<^verbatim>\<open>a[mask]\<close> for a mask as long as \<open>a\<close>.\<close>

definition select_mask :: "'a list \<Rightarrow> bool list \<Rightarrow> 'a list" where
  "select_mask a msk = map fst (filter snd (zip a msk))"

text \<open>
  \<^verbatim>\<open>
    def get_sync_fronts(auxiliary_name):
        d = Bunch({'times': [], 'nsync': np.zeros(nprobes, )})
        for ind, ephys_file in enumerate(ephys_files):
            sync = alf.io.load_object(ephys_file.ap.parent, '_spikeglx_sync', short_keys=True)
            sync_map = get_ibl_sync_map(ephys_file, '3A')
            # exits if sync label not found for current probe
            if auxiliary_name not in sync_map:
                return
            isync = np.in1d(sync['channels'], np.array([sync_map[auxiliary_name]]))
            # only returns syncs if we get fronts for all probes
            if np.all(~isync):
                return
            d.nsync[ind] = len(sync.channels)
            d['times'].append(sync['times'][isync])
        return d
  \<close>
  The loop runs over the files still to visit, with \<open>d\<close> as filled so far: \<open>nsync\<close> holds
  the entries of the probes visited. A mask of another length than \<^verbatim>\<open>sync['times']\<close> raises
  \<^verbatim>\<open>IndexError\<close>.
\<close>

fun get_sync_fronts :: "string \<Rightarrow> ephys_file list \<Rightarrow> fronts \<Rightarrow> error + fronts option" where
  "get_sync_fronts auxiliary_name [] d = Inr (Some d)"
| "get_sync_fronts auxiliary_name (ephys_file # rest) d =
     (case sync_map ephys_file auxiliary_name of
        None \<Rightarrow> Inr None
      | Some ch \<Rightarrow>
          let isync = map (\<lambda>c. c = ch) (channels (sync_obj ephys_file))
          in if list_all Not isync then Inr None
             else if length (front_times (sync_obj ephys_file)) \<noteq> length isync
               then Inl IndexError
             else get_sync_fronts auxiliary_name rest
                    (d\<lparr>times_list := times_list d @
                          [select_mask (front_times (sync_obj ephys_file)) isync],
                       nsync := nsync d @ [length (channels (sync_obj ephys_file))]\<rparr>))"

text \<open>\<^verbatim>\<open>numpy.argmax\<close> of a non-empty array: the first index of a maximum.\<close>

definition argmax :: "nat list \<Rightarrow> nat" where
  "argmax a = length (takeWhile (\<lambda>v. v \<noteq> Max (set a)) a)"

text \<open>
  The choice of the fronts, lines 81 to 86 of \<^verbatim>\<open>version3A\<close>:
  \<^verbatim>\<open>
    d = get_sync_fronts('frame2ttl')
    if not d:
        _logger.warning('Ephys sync: frame2ttl not detected on both probes, using camera sync')
        d = get_sync_fronts('right_camera')
        if not min([t[0] for t in d['times']]) > 0.2:
            raise(ValueError('Cameras started before ephys, no sync possible'))
  \<close>
  Where the second call returns \<^verbatim>\<open>None\<close>, \<^verbatim>\<open>d['times']\<close> raises \<^verbatim>\<open>TypeError\<close>.
\<close>

definition choose_fronts :: "ephys_file list \<Rightarrow> world \<Rightarrow> (error + fronts) \<times> world" where
  "choose_fronts efs w =
     (case get_sync_fronts ''frame2ttl'' efs \<lparr>times_list = [], nsync = []\<rparr> of
        Inl e \<Rightarrow> (Inl e, w)
      | Inr (Some d) \<Rightarrow> (Inr d, w)
      | Inr None \<Rightarrow>
          let w1 = logger WarningFrame2ttlNotDetected w
          in (case get_sync_fronts ''right_camera'' efs \<lparr>times_list = [], nsync = []\<rparr> of
                Inl e \<Rightarrow> (Inl e, w1)
              | Inr None \<Rightarrow> (Inl TypeError, w1)
              | Inr (Some d) \<Rightarrow>
                  if \<not> 2 / 10 < Min (set (map hd (times_list d)))
                  then (Inl (ValueError ''Cameras started before ephys, no sync possible''), w1)
                  else (Inr d, w1)))"

text \<open>
  The truncation, lines 87 to 91:
  \<^verbatim>\<open>
    nsyncs = [t.size for t in d['times']]
    if len(set(nsyncs)) > 1:
        _logger.warning("Probes don't have the same number of synchronizations pulses")
    d['times'] = np.r_[[t[:min(nsyncs)] for t in d['times']]].transpose()
  \<close>
  Column \<open>ind\<close> of the transposed array is entry \<open>ind\<close> of the list of truncated streams.
\<close>

definition chop :: "fronts \<Rightarrow> world \<Rightarrow> fronts \<times> world" where
  "chop d w =
     (let nsyncs = map length (times_list d)
      in (d\<lparr>times_list := map (take (Min (set nsyncs))) (times_list d)\<rparr>,
          if 1 < length (remdups nsyncs) then logger WarningDifferentPulseNumbers w else w))"

text \<open>
  The loop of \<^verbatim>\<open>version3A\<close> over \<^verbatim>\<open>enumerate(ephys_files)\<close>, lines 100 to 107:
  \<^verbatim>\<open>
    for ind, ephys_file in enumerate(ephys_files):
        if ind == iref:
            timestamps = np.array([[0., 0.], [1., 1.]])
        else:
            timestamps, qc = sync_probe_front_times(d.times[:, ind], d.times[:, iref], sr,
                                                    display=display, linear=linear, tol=tol)
            qc_all &= qc
        _save_timestamps_npy(ephys_file, timestamps, sr)
  \<close>
\<close>

fun version3A_loop ::
  "lowpass \<Rightarrow> fronts \<Rightarrow> nat \<Rightarrow> real \<Rightarrow> display \<Rightarrow> bool \<Rightarrow> real \<Rightarrow>
     (nat \<times> ephys_file) list \<Rightarrow> bool \<Rightarrow> world \<Rightarrow> (error + bool) \<times> world" where
  "version3A_loop lp d iref sr display linear_only tol [] qc_all w = (Inr qc_all, w)"
| "version3A_loop lp d iref sr display linear_only tol ((ind, ephys_file) # rest) qc_all w =
     (if ind = iref
      then version3A_loop lp d iref sr display linear_only tol rest qc_all
             (save_timestamps_npy (ap ephys_file) [(0, 0), (1, 1)] sr w)
      else
        (case sync_probe_front_times lp (times_list d ! ind) (times_list d ! iref) sr
                display linear_only tol w of
           (Inl e, w1) \<Rightarrow> (Inl e, w1)
         | (Inr (timestamps, qc), w1) \<Rightarrow>
             version3A_loop lp d iref sr display linear_only tol rest (qc_all \<and> qc)
               (save_timestamps_npy (ap ephys_file) timestamps sr w1)))"

text \<open>
  \<^verbatim>\<open>
  def version3A(ses_path, display=True, linear=False, tol=2.1):
      ephys_files = spikeglx.glob_ephys_files(ses_path)
      nprobes = len(ephys_files)
      if nprobes <= 1:
          _logger.warning(f"Skipping single probe session: {ses_path}")
          return True
      (the choice of the fronts and the truncation)
      # the reference probe is the one with the most sync pulses detected
      iref = np.argmax(d.nsync)
      sr = _get_sr(ephys_files[iref])
      qc_all = True
      (the loop)
      return qc_all
  \<close>
\<close>

definition version3A ::
  "lowpass \<Rightarrow> session \<Rightarrow> display \<Rightarrow> bool \<Rightarrow> real \<Rightarrow> world \<Rightarrow> (error + bool) \<times> world" where
  "version3A lp ses display linear_only tol w =
     (let nprobes = length (ephys_files ses)
      in if nprobes \<le> 1 then (Inr True, logger (WarningSkipSingleProbe (ses_path ses)) w)
         else
           (case choose_fronts (ephys_files ses) w of
              (Inl e, w1) \<Rightarrow> (Inl e, w1)
            | (Inr d0, w1) \<Rightarrow>
                (case chop d0 w1 of
                   (d, w2) \<Rightarrow>
                     let iref = argmax (nsync d);
                         sr = fs (ephys_files ses ! iref)
                     in version3A_loop lp d iref sr display linear_only tol
                          (enumerate 0 (ephys_files ses)) True w2)))"

text \<open>
  \<^verbatim>\<open>version3B\<close>. The function \<^verbatim>\<open>_get_sync_fronts\<close> of \<^verbatim>\<open>ibllib.io.extractors.ephys_fpga\<close> is
  not part of the sources at hand; the times it returns for a sync object and a channel
  are the parameter \<open>gsf\<close>.
  \<^verbatim>\<open>
  def version3B(ses_path, display=True, linear=False, tol=2.5):
      ephys_files = spikeglx.glob_ephys_files(ses_path)
      for ef in ephys_files:
          ef['sync'] = alf.io.load_object(ef.path, '_spikeglx_sync', short_keys=True)
          ef['sync_map'] = get_ibl_sync_map(ef, '3B')
      nidq_file = [ef for ef in ephys_files if ef.get('nidq')]
      ephys_files = [ef for ef in ephys_files if not ef.get('nidq')]
      nprobes = len(ephys_files)
      # should have at least 2 probes and only one nidq
      if nprobes <= 1:
          return True
      assert(len(nidq_file) == 1)
      nidq_file = nidq_file[0]
      sync_nidq = _get_sync_fronts(nidq_file.sync, nidq_file.sync_map['imec_sync'])
      qc_all = True
      for ef in ephys_files:
          sync_probe = _get_sync_fronts(ef.sync, ef.sync_map['imec_sync'])
          sr = _get_sr(ef)
          assert(sync_nidq.times.size == sync_probe.times.size)
          timestamps, qc = sync_probe_front_times(sync_probe.times, sync_nidq.times, sr,
                                                  display=display, linear=linear, tol=tol)
          qc_all &= qc
          _save_timestamps_npy(ef, timestamps, sr)
      return qc_all
  \<close>
\<close>

fun version3B_loop ::
  "(sync_object \<Rightarrow> int \<Rightarrow> real list) \<Rightarrow> lowpass \<Rightarrow> real list \<Rightarrow> display \<Rightarrow> bool \<Rightarrow> real \<Rightarrow>
     ephys_file list \<Rightarrow> bool \<Rightarrow> world \<Rightarrow> (error + bool) \<times> world" where
  "version3B_loop gsf lp sync_nidq display linear_only tol [] qc_all w = (Inr qc_all, w)"
| "version3B_loop gsf lp sync_nidq display linear_only tol (ef # rest) qc_all w =
     (case sync_map ef ''imec_sync'' of
        None \<Rightarrow> (Inl KeyError, w)
      | Some ch \<Rightarrow>
          let sync_probe = gsf (sync_obj ef) ch;
              sr = fs ef
          in if length sync_nidq \<noteq> length sync_probe then (Inl AssertionError, w)
             else
               (case sync_probe_front_times lp sync_probe sync_nidq sr
                       display linear_only tol w of
                  (Inl e, w1) \<Rightarrow> (Inl e, w1)
                | (Inr (timestamps, qc), w1) \<Rightarrow>
                    version3B_loop gsf lp sync_nidq display linear_only tol rest (qc_all \<and> qc)
                      (save_timestamps_npy (ap ef) timestamps sr w1)))"

definition version3B ::
  "(sync_object \<Rightarrow> int \<Rightarrow> real list) \<Rightarrow> lowpass \<Rightarrow> session \<Rightarrow> display \<Rightarrow> bool \<Rightarrow> real \<Rightarrow>
     world \<Rightarrow> (error + bool) \<times> world" where
  "version3B gsf lp ses display linear_only tol w =
     (let nidq_file = filter (\<lambda>ef. nidq ef \<noteq> None) (ephys_files ses);
          probes = filter (\<lambda>ef. nidq ef = None) (ephys_files ses);
          nprobes = length probes
      in if nprobes \<le> 1 then (Inr True, w)
         else if length nidq_file \<noteq> 1 then (Inl AssertionError, w)
         else
           (case sync_map (hd nidq_file) ''imec_sync'' of
              None \<Rightarrow> (Inl KeyError, w)
            | Some ch \<Rightarrow>
                version3B_loop gsf lp (gsf (sync_obj (hd nidq_file)) ch)
                  display linear_only tol probes True w))"

text \<open>
  The keyword arguments a caller of \<^verbatim>\<open>sync\<close> may pass on; one that is absent leaves the
  default of the function called: \<^verbatim>\<open>display=True\<close>, \<^verbatim>\<open>linear=False\<close>, and \<^verbatim>\<open>tol=2.1\<close> in
  \<^verbatim>\<open>version3A\<close>, \<^verbatim>\<open>tol=2.5\<close> in \<^verbatim>\<open>version3B\<close>.
\<close>

record kwargs =
  kw_display :: "display option"
  kw_linear :: "bool option"
  kw_tol :: "real option"

text \<open>
  \<^verbatim>\<open>
  @log2session_static('ephys')
  def sync(ses_path, **kwargs):
      """
      Wrapper for sync_probes.version3A and sync_probes.version3B that automatically determines
      the version
      :param ses_path:
      :return: bool True on a a successful sync
      """
      version = spikeglx.get_neuropixel_version_from_folder(ses_path)
      if version == '3A':
          version3A(ses_path, **kwargs)
      elif version == '3B':
          version3B(ses_path, **kwargs)
  \<close>
  The body has no \<^verbatim>\<open>return\<close> statement: what the function returns is Python's \<^verbatim>\<open>None\<close>,
  the value \<open>None\<close> of \<open>bool option\<close> here, where \<open>Some b\<close> is the boolean \<open>b\<close>. The decorator
  of \<^verbatim>\<open>ibllib.misc\<close> directs the log to a file of the session and hands on what the
  function returns.
\<close>

definition sync ::
  "(sync_object \<Rightarrow> int \<Rightarrow> real list) \<Rightarrow> lowpass \<Rightarrow> session \<Rightarrow> kwargs \<Rightarrow> world \<Rightarrow>
     (error + bool option) \<times> world" where
  "sync gsf lp ses kw w =
     (let version = neuropixel_version ses;
          display = (case kw_display kw of None \<Rightarrow> Flag True | Some v \<Rightarrow> v);
          linear_only = (case kw_linear kw of None \<Rightarrow> False | Some v \<Rightarrow> v)
      in if version = ''3A'' then
           (case version3A lp ses display linear_only
                   (case kw_tol kw of None \<Rightarrow> 21 / 10 | Some v \<Rightarrow> v) w of
              (Inl e, w1) \<Rightarrow> (Inl e, w1)
            | (Inr qc_all, w1) \<Rightarrow> (Inr None, w1))
         else if version = ''3B'' then
           (case version3B gsf lp ses display linear_only
                   (case kw_tol kw of None \<Rightarrow> 25 / 10 | Some v \<Rightarrow> v) w of
              (Inl e, w1) \<Rightarrow> (Inl e, w1)
            | (Inr qc_all, w1) \<Rightarrow> (Inr None, w1))
         else (Inr None, w))"

subsection \<open>Three sessions\<close>

text \<open>
  A session of two 3A probes with \<^verbatim>\<open>frame2ttl\<close> on channel 12. The first probe has three
  fronts, all on that channel; the second has five fronts, two of them on that channel.
\<close>

definition probe00 :: ephys_file where
  "probe00 = \<lparr>ap = ''probe00/ephys_g0_t0.imec.ap.bin'', nidq = None,
      sync_obj = \<lparr>channels = [12, 12, 12], front_times = [1, 2, 3]\<rparr>,
      sync_map = [''frame2ttl'' \<mapsto> 12, ''right_camera'' \<mapsto> 2],
      fs = 30000\<rparr>"

definition probe01 :: ephys_file where
  "probe01 = \<lparr>ap = ''probe01/ephys_g0_t0.imec.ap.bin'', nidq = None,
      sync_obj = \<lparr>channels = [12, 2, 12, 2, 2], front_times = [3 / 2, 2, 7 / 2, 3, 4]\<rparr>,
      sync_map = [''frame2ttl'' \<mapsto> 12, ''right_camera'' \<mapsto> 2],
      fs = 30000\<rparr>"

definition session_3A :: session where
  "session_3A = \<lparr>ses_path = ''Subjects/ZM_1150/2019-05-07/001'', neuropixel_version = ''3A'',
      ephys_files = [probe00, probe01]\<rparr>"

text \<open>
  A session of two 3A probes without \<^verbatim>\<open>frame2ttl\<close>, whose cameras give their first front
  on channel 2 a tenth of a second into the recording.
\<close>

definition camera_probe :: "string \<Rightarrow> real \<Rightarrow> ephys_file" where
  "camera_probe p t0 = \<lparr>ap = p, nidq = None,
      sync_obj = \<lparr>channels = [2, 2, 2], front_times = [t0, 1, 2]\<rparr>,
      sync_map = [''right_camera'' \<mapsto> 2],
      fs = 30000\<rparr>"

definition session_camera :: session where
  "session_camera = \<lparr>ses_path = ''Subjects/ZM_1150/2019-05-08/001'', neuropixel_version = ''3A'',
      ephys_files = [camera_probe ''probe00/ephys_g0_t0.imec.ap.bin'' (1 / 10),
                     camera_probe ''probe01/ephys_g0_t0.imec.ap.bin'' (3 / 20)]\<rparr>"

text \<open>The same session with the first fronts of the cameras half a second in.\<close>

definition session_camera_late :: session where
  "session_camera_late = \<lparr>ses_path = ''Subjects/ZM_1150/2019-05-09/001'',
      neuropixel_version = ''3A'',
      ephys_files = [camera_probe ''probe00/ephys_g0_t0.imec.ap.bin'' (1 / 2),
                     camera_probe ''probe01/ephys_g0_t0.imec.ap.bin'' (3 / 5)]\<rparr>"

definition empty_world :: world where
  "empty_world = \<lparr>log = [], figure = [], files = Map.empty\<rparr>"

definition no_filter :: lowpass where
  "no_filter ts si b = ts"



section \<open>Properties\<close>

subsection \<open>The writer\<close>

lemma files_save_timestamps_npy:
  "files (save_timestamps_npy p tbl sr w) =
     (files w)(SyncFile p \<mapsto> tbl, TimestampsFile p \<mapsto> map (\<lambda>row. (fst row * sr, snd row)) tbl)"
  by (simp add: save_timestamps_npy_def np_save_def Let_def)

lemma log_save_timestamps_npy [simp]: "log (save_timestamps_npy p tbl sr w) = log w"
  by (simp add: save_timestamps_npy_def np_save_def Let_def)

lemma figure_save_timestamps_npy [simp]: "figure (save_timestamps_npy p tbl sr w) = figure w"
  by (simp add: save_timestamps_npy_def np_save_def Let_def)

text \<open>
  C9. For every control-point table and sampling rate the writer stores the table as it
  is in the sync file, and stores in the timestamps file a table of the same length whose
  first column is the first column of the control points multiplied by the sampling rate
  and whose second column is their second column, unchanged.
\<close>

theorem save_timestamps_npy_tables:
  "\<exists>ts. files (save_timestamps_npy p tbl sr w) (SyncFile p) = Some tbl
      \<and> files (save_timestamps_npy p tbl sr w) (TimestampsFile p) = Some ts
      \<and> map fst ts = map (\<lambda>x. x * sr) (map fst tbl)
      \<and> map snd ts = map snd tbl"
  by (simp add: files_save_timestamps_npy comp_def)

subsection \<open>The interpolant at its knots\<close>


lemma interp1d_sorted:
  assumes "ks \<noteq> []" "sorted_wrt (<) (map fst ks)"
  shows "interp1d ks = Inr ks"
proof -
  from assms(2) have "sorted (map fst ks)" by (rule strict_sorted_imp_sorted)
  then have "sort_key fst ks = ks" by (rule sort_key_id_if_sorted)
  with assms(1) show ?thesis by (simp add: interp1d_def)
qed

lemma knots_increase:
  assumes "sorted_wrt (<) (map fst ks)" "i < j" "j < length ks"
  shows "fst (ks ! i) < fst (ks ! j)"
proof -
  have "map fst ks ! i < map fst ks ! j"
    using sorted_wrt_nth_less [OF assms(1), of i j] assms by simp
  with assms show ?thesis by simp
qed






lemma slope64_swap:
  "slope64 (prod.swap p) (prod.swap q) =
     fdiv (fsub (Finite (fst q)) (Finite (fst p))) (fsub (Finite (snd q)) (Finite (snd p)))"
  by (simp add: slope64_def)








subsection \<open>The check of the fitted control points\<close>

lemma spft_Inr_iff:
  "fst (sync_probe_front_times lp t tref sr display lin tol w) = Inr (sp, qc) \<longleftrightarrow>
   (\<exists>pol. polyfit t tref = Inr pol \<and>
      (if lin then sp = [(0, polyval pol 0), (1, polyval pol 1)]
       else \<exists>tu rf tout r.
              smooth_residual lp tref
                (map (\<lambda>(a, b). a - b) (zip tref (map (polyval pol) t))) = Inr (tu, rf, tout, r)
              \<and> sp = zip tout (map (\<lambda>(a, b). a + b) (zip (map (polyval pol) tout) r))) \<and>
      (\<exists>fcn. interp1d sp = Inr fcn \<and>
         qc = (\<not> list_ex (\<lambda>(tr, ti). exceeds sr tol tr (call_linear fcn ti)) (zip tref t))))"
  by (auto simp: sync_probe_front_times_def Let_def split: sum.splits prod.splits if_splits)

lemma spft_world_indep:
  "fst (sync_probe_front_times lp t tref sr display lin tol w1)
     = fst (sync_probe_front_times lp t tref sr display lin tol w2)"
  by (auto simp: sync_probe_front_times_def Let_def split: sum.splits prod.splits if_splits)

lemma sorted_arange:
  assumes "0 < h"
  shows "sorted_wrt (<) (arange a b h)"
  unfolding sorted_wrt_iff_nth_less arange_def
  using assms by auto

lemma polyfit_length: "polyfit t tref = Inr pol \<Longrightarrow> length t = length tref \<and> t \<noteq> []"
  by (auto simp: polyfit_def Let_def split: if_splits)

lemma np_interp_length: "np_interp x xp fp = Inr r \<Longrightarrow> length r = length x"
  by (auto simp: np_interp_def split: if_splits)

lemma smooth_residual_tout:
  assumes "smooth_residual lp tref residual = Inr (tu, rf, tout, r)"
  shows "tout = arange 0 (Max (set tref) + 20) 20 \<and> length r = length tout"
  using assms
  by (auto simp: smooth_residual_def Let_def SYNC_SAMPLING_RATE_SECS_def np_interp_length
           split: if_splits sum.splits)

lemma call_linear_Finite:
  assumes n: "2 \<le> length ks" and s: "sorted_wrt (<) (map fst ks)"
  shows "\<exists>y. call_linear ks x = Finite y"
proof -
  define hi where "hi = min (int (length ks) - 1) (max (int (searchsorted (map fst ks) x)) 1)"
  have b: "1 \<le> hi" "hi < int (length ks)" using n by (auto simp: hi_def)
  then have "nat (hi - 1) < nat hi" "nat hi < length ks" by auto
  with s have "fst (ks ! nat (hi - 1)) < fst (ks ! nat hi)" by (rule knots_increase)
  with b show ?thesis
    by (simp add: call_linear_def py_nth_def Let_def hi_def [symmetric])
qed


lemma spft_knots_sorted:
  assumes "fst (sync_probe_front_times lp t tref sr display lin tol w) = Inr (sp, qc)"
  shows "sorted_wrt (<) (map fst sp)"
proof (cases lin)
  case True
  with assms show ?thesis by (auto simp: spft_Inr_iff)
next
  case False
  from assms obtain pol where
    "if lin then sp = [(0, polyval pol 0), (1, polyval pol 1)]
     else \<exists>tu rf tout r.
            smooth_residual lp tref
              (map (\<lambda>(a, b). a - b) (zip tref (map (polyval pol) t))) = Inr (tu, rf, tout, r)
            \<and> sp = zip tout (map (\<lambda>(a, b). a + b) (zip (map (polyval pol) tout) r))"
    unfolding spft_Inr_iff by blast
  with False obtain tu rf tout r where
    sm: "smooth_residual lp tref
           (map (\<lambda>(a, b). a - b) (zip tref (map (polyval pol) t))) = Inr (tu, rf, tout, r)"
    and sp: "sp = zip tout (map (\<lambda>(a, b). a + b) (zip (map (polyval pol) tout) r))"
    by auto
  from smooth_residual_tout [OF sm]
  have tout: "tout = arange 0 (Max (set tref) + 20) 20" and len: "length r = length tout"
    by simp_all
  from len have "map fst sp = tout" by (simp add: sp)
  moreover have "sorted_wrt (<) tout" unfolding tout by (rule sorted_arange) simp
  ultimately show ?thesis by simp
qed

lemma list_ex_zip_nth:
  assumes "length xs = length ys"
  shows "list_ex P (zip xs ys) \<longleftrightarrow> (\<exists>i<length ys. P (xs ! i, ys ! i))"
  using assms by (auto simp: list_ex_iff set_zip)

lemma exceeds_Finite_nonneg:
  assumes "0 \<le> sr"
  shows "exceeds sr tol tr (Finite y) \<longleftrightarrow> tol < \<bar>tr - y\<bar> * sr"
  using assms by (simp add: abs_mult)

text \<open>
  C1. Whenever \<^verbatim>\<open>sync_probe_front_times\<close> returns \<open>(sync_points, qc)\<close>, for a sampling rate
  that is not negative and at least two control points (which an interpolant between
  control points needs): the two streams have the same length; the interpolant built over
  the returned control points has a finite value \<open>f i\<close> at every \<open>t[i]\<close>; \<open>qc\<close> is false if
  and only if some matched pair has \<open>|tref[i] - f i| * sr > tol\<close>; when \<open>qc\<close> is true every
  pair has \<open>|f i - tref[i]| * sr \<le> tol\<close>; and the same table of control points is returned
  for every sampling rate and tolerance, whatever the outcome of the check.
\<close>

theorem sync_probe_front_times_qc:
  assumes r: "fst (sync_probe_front_times lp t tref sr display lin tol w) = Inr (sync_points, qc)"
    and sr: "0 \<le> sr"
    and n: "2 \<le> length sync_points"
  shows "length t = length tref \<and>
    (\<exists>fcn f. interp1d sync_points = Inr fcn \<and>
       (\<forall>i<length t. call_linear fcn (t ! i) = Finite (f i)) \<and>
       (qc = False \<longleftrightarrow> (\<exists>i<length t. tol < \<bar>tref ! i - f i\<bar> * sr)) \<and>
       (qc \<longrightarrow> (\<forall>i<length t. \<bar>f i - tref ! i\<bar> * sr \<le> tol))) \<and>
    (\<forall>sr' tol'. \<exists>qc'.
       fst (sync_probe_front_times lp t tref sr' display lin tol' w) = Inr (sync_points, qc'))"
proof (intro conjI)
  from r obtain pol fcn where pol: "polyfit t tref = Inr pol"
    and fcn: "interp1d sync_points = Inr fcn"
    and qc: "qc = (\<not> list_ex (\<lambda>(tr, ti). exceeds sr tol tr (call_linear fcn ti)) (zip tref t))"
    unfolding spft_Inr_iff by blast
  from pol show len: "length t = length tref" by (simp add: polyfit_length)
  have sorted: "sorted_wrt (<) (map fst sync_points)"
    using r by (rule spft_knots_sorted)
  from n have "sync_points \<noteq> []" by auto
  with sorted fcn have fcn_eq: "fcn = sync_points" by (simp add: interp1d_sorted)
  have "\<forall>x. \<exists>y. call_linear sync_points x = Finite y"
    using call_linear_Finite [OF n sorted] by blast
  then obtain g where g: "\<And>x. call_linear sync_points x = Finite (g x)" by metis
  define f where "f i = g (t ! i)" for i
  have fin: "\<forall>i<length t. call_linear fcn (t ! i) = Finite (f i)"
    by (simp add: fcn_eq g f_def)
  have iff: "qc = False \<longleftrightarrow> (\<exists>i<length t. tol < \<bar>tref ! i - f i\<bar> * sr)"
    unfolding qc using len sr
    by (simp add: list_ex_zip_nth fcn_eq g f_def abs_mult)
  have bound: "qc \<longrightarrow> (\<forall>i<length t. \<bar>f i - tref ! i\<bar> * sr \<le> tol)"
  proof (intro impI allI)
    fix i assume "qc" "i < length t"
    with iff have "\<not> tol < \<bar>tref ! i - f i\<bar> * sr" by blast
    then show "\<bar>f i - tref ! i\<bar> * sr \<le> tol" by (simp add: abs_minus_commute)
  qed
  from fcn fin iff bound
  show "\<exists>fcn f. interp1d sync_points = Inr fcn \<and>
       (\<forall>i<length t. call_linear fcn (t ! i) = Finite (f i)) \<and>
       (qc = False \<longleftrightarrow> (\<exists>i<length t. tol < \<bar>tref ! i - f i\<bar> * sr)) \<and>
       (qc \<longrightarrow> (\<forall>i<length t. \<bar>f i - tref ! i\<bar> * sr \<le> tol))"
    by blast
  show "\<forall>sr' tol'. \<exists>qc'.
       fst (sync_probe_front_times lp t tref sr' display lin tol' w) = Inr (sync_points, qc')"
    using r unfolding spft_Inr_iff by blast
qed

theorem sync_probe_front_times_qc_witness:
  "(length [0, 1, 2 :: real] = length [1, 3, 5 :: real] \<and>
    (\<exists>fcn f. interp1d [(0, 1), (1, 3)] = Inr fcn \<and>
       (\<forall>i<length [0, 1, 2 :: real]. call_linear fcn ([0, 1, 2] ! i) = Finite (f i)) \<and>
       (True = False \<longleftrightarrow> (\<exists>i<length [0, 1, 2 :: real]. 2 < \<bar>[1, 3, 5] ! i - f i\<bar> * 30000)) \<and>
       (True \<longrightarrow> (\<forall>i<length [0, 1, 2 :: real]. \<bar>f i - [1, 3, 5] ! i\<bar> * 30000 \<le> 2))) \<and>
    (\<forall>sr' tol'. \<exists>qc'.
       fst (sync_probe_front_times no_filter [0, 1, 2] [1, 3, 5] sr' (Flag False) True tol'
              empty_world) = Inr ([(0, 1), (1, 3)], qc')))
   \<and> (length [0, 1, 2 :: real] = length [1, 3, 6 :: real] \<and>
    (\<exists>fcn f. interp1d [(0, 5 / 6), (1, 10 / 3)] = Inr fcn \<and>
       (\<forall>i<length [0, 1, 2 :: real]. call_linear fcn ([0, 1, 2] ! i) = Finite (f i)) \<and>
       (False = False \<longleftrightarrow> (\<exists>i<length [0, 1, 2 :: real]. 2 < \<bar>[1, 3, 6] ! i - f i\<bar> * 30000)) \<and>
       (False \<longrightarrow> (\<forall>i<length [0, 1, 2 :: real]. \<bar>f i - [1, 3, 6] ! i\<bar> * 30000 \<le> 2))) \<and>
    (\<forall>sr' tol'. \<exists>qc'.
       fst (sync_probe_front_times no_filter [0, 1, 2] [1, 3, 6] sr' (Flag False) True tol'
              empty_world) = Inr ([(0, 5 / 6), (1, 10 / 3)], qc')))"
proof
  show "length [0, 1, 2 :: real] = length [1, 3, 5 :: real] \<and>
    (\<exists>fcn f. interp1d [(0, 1), (1, 3)] = Inr fcn \<and>
       (\<forall>i<length [0, 1, 2 :: real]. call_linear fcn ([0, 1, 2] ! i) = Finite (f i)) \<and>
       (True = False \<longleftrightarrow> (\<exists>i<length [0, 1, 2 :: real]. 2 < \<bar>[1, 3, 5] ! i - f i\<bar> * 30000)) \<and>
       (True \<longrightarrow> (\<forall>i<length [0, 1, 2 :: real]. \<bar>f i - [1, 3, 5] ! i\<bar> * 30000 \<le> 2))) \<and>
    (\<forall>sr' tol'. \<exists>qc'.
       fst (sync_probe_front_times no_filter [0, 1, 2] [1, 3, 5] sr' (Flag False) True tol'
              empty_world) = Inr ([(0, 1), (1, 3)], qc'))"
    by (rule sync_probe_front_times_qc [where sr = 30000 and tol = 2])
       (simp_all add: sync_probe_front_times_def polyfit_def polyval_def interp1d_def
          call_linear_def searchsorted_def py_nth_def Let_def)
  show "length [0, 1, 2 :: real] = length [1, 3, 6 :: real] \<and>
    (\<exists>fcn f. interp1d [(0, 5 / 6), (1, 10 / 3)] = Inr fcn \<and>
       (\<forall>i<length [0, 1, 2 :: real]. call_linear fcn ([0, 1, 2] ! i) = Finite (f i)) \<and>
       (False = False \<longleftrightarrow> (\<exists>i<length [0, 1, 2 :: real]. 2 < \<bar>[1, 3, 6] ! i - f i\<bar> * 30000)) \<and>
       (False \<longrightarrow> (\<forall>i<length [0, 1, 2 :: real]. \<bar>f i - [1, 3, 6] ! i\<bar> * 30000 \<le> 2))) \<and>
    (\<forall>sr' tol'. \<exists>qc'.
       fst (sync_probe_front_times no_filter [0, 1, 2] [1, 3, 6] sr' (Flag False) True tol'
              empty_world) = Inr ([(0, 5 / 6), (1, 10 / 3)], qc'))"
    by (rule sync_probe_front_times_qc [where sr = 30000 and tol = 2])
       (simp_all add: sync_probe_front_times_def polyfit_def polyval_def interp1d_def
          call_linear_def searchsorted_def py_nth_def Let_def)
qed

text \<open>
  C10. The value \<^verbatim>\<open>sync_probe_front_times\<close> returns, the pair \<open>(sync_points, qc)\<close> or the
  exception raised, is the same for any two values of the \<^verbatim>\<open>display\<close> argument (and
  whatever has been logged, drawn or saved before).
\<close>

theorem sync_probe_front_times_display:
  "fst (sync_probe_front_times lp t tref sr display1 lin tol w1)
     = fst (sync_probe_front_times lp t tref sr display2 lin tol w2)"
  by (auto simp: sync_probe_front_times_def Let_def split: sum.splits prod.splits if_splits)

subsection \<open>The linear fit\<close>

lemma sse_expand:
  "(\<Sum>p\<leftarrow>ps. (snd p - (a' * fst p + b'))\<^sup>2) =
     (\<Sum>p\<leftarrow>ps. (snd p - (a * fst p + (b::real)))\<^sup>2)
     + 2 * (a - a') * (\<Sum>p\<leftarrow>ps. (snd p - (a * fst p + b)) * fst p)
     + 2 * (b - b') * (\<Sum>p\<leftarrow>ps. snd p - (a * fst p + b))
     + (\<Sum>p\<leftarrow>ps. ((a - a') * fst p + (b - b'))\<^sup>2)"
  by (induction ps) (auto simp: algebra_simps power2_eq_square)

lemma sum_residual:
  "(\<Sum>p\<leftarrow>ps. snd p - (a * fst p + (b::real))) =
     sum_list (map snd ps) - a * sum_list (map fst ps) - real (length ps) * b"
  by (induction ps) (auto simp: algebra_simps)

lemma sum_residual_times:
  "(\<Sum>p\<leftarrow>ps. (snd p - (a * fst p + (b::real))) * fst p) =
     (\<Sum>p\<leftarrow>ps. fst p * snd p) - a * (\<Sum>p\<leftarrow>ps. fst p * fst p) - b * sum_list (map fst ps)"
  by (induction ps) (auto simp: algebra_simps)

lemma sum_sq_dev:
  "(\<Sum>u\<leftarrow>xs. (c * u - (s::real))\<^sup>2) =
     c\<^sup>2 * (\<Sum>u\<leftarrow>xs. u * u) - 2 * c * s * sum_list xs + real (length xs) * s\<^sup>2"
  by (induction xs) (auto simp: algebra_simps power2_eq_square)

lemma full_rank:
  assumes "\<not> list_all (\<lambda>a. a = hd x) x"
  shows "real (length x) * (\<Sum>u\<leftarrow>x. u * u) - sum_list x * sum_list x \<noteq> 0"
proof
  let ?n = "real (length x)"
  assume d: "?n * (\<Sum>u\<leftarrow>x. u * u) - sum_list x * sum_list x = 0"
  from assms have ne: "x \<noteq> []" by auto
  have "(\<Sum>u\<leftarrow>x. (?n * u - sum_list x)\<^sup>2)
          = ?n * (?n * (\<Sum>u\<leftarrow>x. u * u) - sum_list x * sum_list x)"
    unfolding sum_sq_dev by (simp add: algebra_simps power2_eq_square)
  with d have "sum_list (map (\<lambda>u. (?n * u - sum_list x)\<^sup>2) x) = 0" by simp
  then have "\<forall>v\<in>set (map (\<lambda>u. (?n * u - sum_list x)\<^sup>2) x). v = 0"
    by (subst (asm) sum_list_nonneg_eq_0_iff) auto
  then have "\<forall>u\<in>set x. ?n * u = sum_list x" by auto
  moreover from ne have "?n \<noteq> 0" by simp
  ultimately have "\<forall>u\<in>set x. u = sum_list x / ?n" by (auto simp: field_simps)
  moreover from ne have "hd x \<in> set x" by simp
  ultimately have "\<forall>u\<in>set x. u = hd x" by metis
  then have "list_all (\<lambda>a. a = hd x) x" by (simp add: list_all_iff)
  with assms show False by simp
qed

lemma sum_times_const:
  assumes "\<forall>p\<in>set ps. fst p = c"
  shows "(\<Sum>p\<leftarrow>ps. f p * fst p) = (c::real) * (\<Sum>p\<leftarrow>ps. f p)"
  using assms by (induction ps) (auto simp: algebra_simps)

lemma sum_const:
  assumes "\<forall>u\<in>set xs. u = c"
  shows "sum_list xs = real (length xs) * c"
  using assms by (induction xs) (auto simp: algebra_simps)

lemma polyfit_normal_equations:
  assumes "polyfit x y = Inr pol"
  shows "\<exists>a b. pol = [a, b]
     \<and> (\<Sum>p\<leftarrow>zip x y. snd p - (a * fst p + b)) = 0
     \<and> (\<Sum>p\<leftarrow>zip x y. (snd p - (a * fst p + b)) * fst p) = 0"
proof -
  from assms have len: "length x = length y" and ne: "x \<noteq> []"
    by (auto simp: polyfit_def Let_def split: if_splits)
  let ?ps = "zip x y"
  let ?n = "real (length x)"
  have fst_ps: "map fst ?ps = x" and snd_ps: "map snd ?ps = y" and len_ps: "length ?ps = length x"
    using len by simp_all
  have sxx: "(\<Sum>p\<leftarrow>?ps. fst p * fst p) = (\<Sum>u\<leftarrow>x. u * u)"
    using arg_cong [OF fst_ps, of "\<lambda>l. \<Sum>u\<leftarrow>l. u * u"] by (simp add: comp_def)
  have sxy: "(\<Sum>p\<leftarrow>?ps. fst p * snd p) = sum_list (map (\<lambda>(a, b). a * b) ?ps)"
    by (simp add: case_prod_unfold)
  from ne have n0: "?n \<noteq> 0" by simp
  show ?thesis
  proof (cases "list_all (\<lambda>a. a = hd x) x")
    case False
    define d where "d = ?n * (\<Sum>u\<leftarrow>x. u * u) - sum_list x * sum_list x"
    define a where "a = (?n * sum_list (map (\<lambda>(a, b). a * b) ?ps) - sum_list x * sum_list y) / d"
    define b where "b = (sum_list y - a * sum_list x) / ?n"
    from False have d0: "d \<noteq> 0" unfolding d_def by (rule full_rank)
    from assms False len ne have pol: "pol = [a, b]"
      by (auto simp: polyfit_def Let_def a_def b_def d_def)
    have n1: "(\<Sum>p\<leftarrow>?ps. snd p - (a * fst p + b)) = 0"
      unfolding sum_residual fst_ps snd_ps len_ps b_def using n0 by (simp add: field_simps)
    have "?n * ((\<Sum>p\<leftarrow>?ps. fst p * snd p) - a * (\<Sum>p\<leftarrow>?ps. fst p * fst p) - b * sum_list x)
            = (?n * sum_list (map (\<lambda>(a, b). a * b) ?ps) - sum_list x * sum_list y) - a * d"
      unfolding sxx sxy b_def d_def using n0 by (simp add: field_simps)
    also have "\<dots> = 0" unfolding a_def using d0 by simp
    finally have n2: "(\<Sum>p\<leftarrow>?ps. (snd p - (a * fst p + b)) * fst p) = 0"
      unfolding sum_residual_times fst_ps using n0 by simp
    from pol n1 n2 show ?thesis by blast
  next
    case True
    then have all: "\<forall>u\<in>set x. u = hd x" by (simp add: list_all_iff)
    define a where "a = sum_list y / ?n / (2 * hd x)"
    define b where "b = sum_list y / ?n / 2"
    from assms True have h0: "hd x \<noteq> 0"
      by (auto simp: polyfit_def Let_def split: if_splits)
    from assms True len ne h0 have pol: "pol = [a, b]"
      by (auto simp: polyfit_def Let_def a_def b_def)
    have sx: "sum_list x = ?n * hd x" using all by (rule sum_const)
    have n1: "(\<Sum>p\<leftarrow>?ps. snd p - (a * fst p + b)) = 0"
      unfolding sum_residual fst_ps snd_ps len_ps sx a_def b_def using n0 h0
      by (simp add: field_simps)
    have "\<forall>p\<in>set ?ps. fst p = hd x"
      using all by (auto dest: set_zip_leftD)
    then have "(\<Sum>p\<leftarrow>?ps. (snd p - (a * fst p + b)) * fst p)
                 = hd x * (\<Sum>p\<leftarrow>?ps. snd p - (a * fst p + b))"
      by (rule sum_times_const)
    with n1 have n2: "(\<Sum>p\<leftarrow>?ps. (snd p - (a * fst p + b)) * fst p) = 0" by simp
    from pol n1 n2 show ?thesis by blast
  qed
qed

lemma polyfit_least_squares:
  assumes "polyfit x y = Inr pol"
  shows "\<exists>a b. pol = [a, b] \<and> (\<forall>a' b'. sum_sq_error x y a b \<le> sum_sq_error x y a' b')"
proof -
  from polyfit_normal_equations [OF assms] obtain a b where pol: "pol = [a, b]"
    and n1: "(\<Sum>p\<leftarrow>zip x y. snd p - (a * fst p + b)) = 0"
    and n2: "(\<Sum>p\<leftarrow>zip x y. (snd p - (a * fst p + b)) * fst p) = 0"
    by blast
  have "sum_sq_error x y a b \<le> sum_sq_error x y a' b'" for a' b'
  proof -
    have "sum_sq_error x y a' b' = sum_sq_error x y a b
            + (\<Sum>p\<leftarrow>zip x y. ((a - a') * fst p + (b - b'))\<^sup>2)"
      unfolding sum_sq_error_def case_prod_unfold
      by (subst sse_expand [where a = a and b = b]) (simp add: n1 n2)
    moreover have "0 \<le> (\<Sum>p\<leftarrow>zip x y. ((a - a') * fst p + (b - b'))\<^sup>2)"
      by (rule sum_list_nonneg) auto
    ultimately show ?thesis by simp
  qed
  with pol show ?thesis by blast
qed

text \<open>
  C8. With the linear flag set: where \<^verbatim>\<open>numpy.polyfit\<close> raises, so does the function;
  otherwise the fit is a slope \<open>a\<close> and an intercept \<open>b\<close> that minimise the sum of the
  squared errors of \<open>tref\<close> against \<open>t\<close> over all lines, and the function returns exactly
  the two control points \<open>[[0, b], [1, a + b]]\<close>.
\<close>

theorem linear_sync_points:
  "case polyfit t tref of
     Inl e \<Rightarrow> fst (sync_probe_front_times lp t tref sr display True tol w) = Inl e
   | Inr pol \<Rightarrow>
       \<exists>a b qc. pol = [a, b]
         \<and> fst (sync_probe_front_times lp t tref sr display True tol w)
             = Inr ([(0, b), (1, a + b)], qc)
         \<and> (\<forall>a' b'. sum_sq_error t tref a b \<le> sum_sq_error t tref a' b')"
proof (cases "polyfit t tref")
  case (Inl e)
  then show ?thesis by (simp add: sync_probe_front_times_def)
next
  case (Inr pol)
  from polyfit_least_squares [OF Inr] obtain a b where pol: "pol = [a, b]"
    and ls: "\<forall>a' b'. sum_sq_error t tref a b \<le> sum_sq_error t tref a' b'"
    by blast
  have "\<exists>fcn. interp1d [(0, b), (1, a + b)] = Inr fcn" by (simp add: interp1d_def)
  with Inr pol have
    "\<exists>qc. fst (sync_probe_front_times lp t tref sr display True tol w)
            = Inr ([(0, b), (1, a + b)], qc)"
    unfolding spft_Inr_iff by (simp add: polyval_def)
  with Inr pol ls show ?thesis by auto
qed

theorem linear_sync_points_witness:
  "\<exists>a b qc. [5 / 2, 5 / 6] = [a, b]
      \<and> fst (sync_probe_front_times (\<lambda>ts si b. ts) [0, 1, 2] [1, 3, 6] 30000 (Flag True) True 2
               \<lparr>log = [], figure = [], files = Map.empty\<rparr>) = Inr ([(0, b), (1, a + b)], qc)
      \<and> (\<forall>a' b'. sum_sq_error [0, 1, 2] [1, 3, 6] a b \<le> sum_sq_error [0, 1, 2] [1, 3, 6] a' b')"
proof -
  have "polyfit [0, 1, 2] [1, 3, 6] = Inr [5 / 2, 5 / 6]"
    by (simp add: polyfit_def)
  with linear_sync_points [where t = "[0, 1, 2]" and tref = "[1, 3, 6]"
      and lp = "\<lambda>ts si b. ts" and sr = 30000 and display = "Flag True" and tol = 2
      and w = "\<lparr>log = [], figure = [], files = Map.empty\<rparr>"]
  show ?thesis by simp
qed

subsection \<open>The run over the probes of a 3A session\<close>

lemma files_logger [simp]: "files (logger r w) = files w"
  by (simp add: logger_def)

lemma files_draw [simp]: "files (draw cs w) = files w"
  by (simp add: draw_def)

lemma log_logger [simp]: "log (logger r w) = log w @ [r]"
  by (simp add: logger_def)

lemma log_draw [simp]: "log (draw cs w) = log w"
  by (simp add: draw_def)

lemma spft_files [simp]:
  "files (snd (sync_probe_front_times lp t tref sr display lin tol w)) = files w"
  by (auto simp: sync_probe_front_times_def Let_def split: sum.splits prod.splits if_splits)

lemma spft_log:
  "set (log w) \<subseteq> set (log (snd (sync_probe_front_times lp t tref sr display lin tol w)))"
  by (auto simp: sync_probe_front_times_def Let_def split: sum.splits prod.splits if_splits)

lemma files_save_other:
  assumes "p \<noteq> q"
  shows "files (save_timestamps_npy q tbl sr w) (SyncFile p) = files w (SyncFile p)"
    and "files (save_timestamps_npy q tbl sr w) (TimestampsFile p) = files w (TimestampsFile p)"
  using assms by (simp_all add: files_save_timestamps_npy)

lemma files_save_same:
  "files (save_timestamps_npy p tbl sr w) (SyncFile p) = Some tbl"
  "files (save_timestamps_npy p tbl sr w) (TimestampsFile p)
     = Some (map (\<lambda>row. (fst row * sr, snd row)) tbl)"
  by (simp_all add: files_save_timestamps_npy)

lemma loop_frame:
  assumes "version3A_loop lp d iref sr display lin tol ies qc0 w = (r, w')"
    and "p \<notin> set (map (\<lambda>ie. ap (snd ie)) ies)"
  shows "files w' (SyncFile p) = files w (SyncFile p)
       \<and> files w' (TimestampsFile p) = files w (TimestampsFile p)"
  using assms
proof (induction ies arbitrary: qc0 w)
  case Nil
  then show ?case by simp
next
  case (Cons ie ies)
  obtain ind ef where ie: "ie = (ind, ef)" by (cases ie)
  from Cons.prems(2) ie have p: "p \<noteq> ap ef" "p \<notin> set (map (\<lambda>ie. ap (snd ie)) ies)" by auto
  show ?case
  proof (cases "ind = iref")
    case True
    with Cons.prems(1) ie have
      "version3A_loop lp d iref sr display lin tol ies qc0
         (save_timestamps_npy (ap ef) [(0, 0), (1, 1)] sr w) = (r, w')"
      by simp
    from Cons.IH [OF this p(2)] p(1) show ?thesis by (simp add: files_save_other)
  next
    case False
    let ?c = "sync_probe_front_times lp (times_list d ! ind) (times_list d ! iref) sr
                display lin tol w"
    show ?thesis
    proof (cases "fst ?c")
      case (Inl e)
      with Cons.prems(1) ie False have "w' = snd ?c"
        by (auto split: prod.splits sum.splits)
      then show ?thesis by simp
    next
      case (Inr tq)
      obtain timestamps qc where tq: "tq = (timestamps, qc)" by (cases tq)
      with Inr Cons.prems(1) ie False have
        "version3A_loop lp d iref sr display lin tol ies (qc0 \<and> qc)
           (save_timestamps_npy (ap ef) timestamps sr (snd ?c)) = (r, w')"
        by (auto split: prod.splits sum.splits)
      from Cons.IH [OF this p(2)] p(1) show ?thesis by (simp add: files_save_other)
    qed
  qed
qed


lemma loop_step:
  assumes "version3A_loop lp d iref sr display lin tol ((ind, ef) # ies) qc0 w = (r, w')"
  shows "(ind = iref \<and>
            version3A_loop lp d iref sr display lin tol ies qc0
              (save_timestamps_npy (ap ef) [(0, 0), (1, 1)] sr w) = (r, w'))
       \<or> (ind \<noteq> iref \<and>
            (\<exists>e. fst (sync_probe_front_times lp (times_list d ! ind) (times_list d ! iref) sr
                        display lin tol w) = Inl e
                \<and> r = Inl e
                \<and> w' = snd (sync_probe_front_times lp (times_list d ! ind)
                              (times_list d ! iref) sr display lin tol w)))
       \<or> (ind \<noteq> iref \<and>
            (\<exists>tbl qc. fst (sync_probe_front_times lp (times_list d ! ind) (times_list d ! iref) sr
                             display lin tol w) = Inr (tbl, qc)
                \<and> version3A_loop lp d iref sr display lin tol ies (qc0 \<and> qc)
                    (save_timestamps_npy (ap ef) tbl sr
                       (snd (sync_probe_front_times lp (times_list d ! ind)
                               (times_list d ! iref) sr display lin tol w))) = (r, w')))"
  using assms by (auto split: prod.splits sum.splits if_splits)

lemma loop_log:
  assumes "version3A_loop lp d iref sr display lin tol ies qc0 w = (r, w')"
  shows "set (log w) \<subseteq> set (log w')"
  using assms
proof (induction ies arbitrary: qc0 w)
  case Nil
  then show ?case by simp
next
  case (Cons ie ies)
  obtain ind ef where ie: "ie = (ind, ef)" by (cases ie)
  from loop_step [OF Cons.prems [unfolded ie]] show ?case
  proof (elim disjE conjE exE)
    assume "version3A_loop lp d iref sr display lin tol ies qc0
              (save_timestamps_npy (ap ef) [(0, 0), (1, 1)] sr w) = (r, w')"
    from Cons.IH [OF this] show ?thesis by simp
  next
    fix e
    assume "w' = snd (sync_probe_front_times lp (times_list d ! ind)
                              (times_list d ! iref) sr display lin tol w)"
    then show ?thesis by (simp add: spft_log)
  next
    fix tbl qc
    assume "version3A_loop lp d iref sr display lin tol ies (qc0 \<and> qc)
                    (save_timestamps_npy (ap ef) tbl sr
                       (snd (sync_probe_front_times lp (times_list d ! ind)
                               (times_list d ! iref) sr display lin tol w))) = (r, w')"
    from Cons.IH [OF this] spft_log [of w lp "times_list d ! ind" "times_list d ! iref" sr display lin tol]
    show ?thesis by auto
  qed
qed

lemma loop_Inl:
  assumes "version3A_loop lp d iref sr display lin tol ies qc0 w = (Inl e, w')"
  shows "\<exists>ie\<in>set ies. fst ie \<noteq> iref \<and>
           fst (sync_probe_front_times lp (times_list d ! fst ie) (times_list d ! iref) sr
                  display lin tol u) = Inl e"
  using assms
proof (induction ies arbitrary: qc0 w)
  case Nil
  then show ?case by simp
next
  case (Cons ie ies)
  obtain ind ef where ie: "ie = (ind, ef)" by (cases ie)
  from loop_step [OF Cons.prems [unfolded ie]] show ?case
  proof (elim disjE conjE exE)
    assume "version3A_loop lp d iref sr display lin tol ies qc0
              (save_timestamps_npy (ap ef) [(0, 0), (1, 1)] sr w) = (Inl e, w')"
    from Cons.IH [OF this] show ?thesis by auto
  next
    fix e'
    assume "ind \<noteq> iref" "Inl e = Inl e'"
      "fst (sync_probe_front_times lp (times_list d ! ind) (times_list d ! iref) sr
              display lin tol w) = Inl e'"
    then have "fst (sync_probe_front_times lp (times_list d ! ind) (times_list d ! iref) sr
              display lin tol u) = Inl e"
      using spft_world_indep [of lp "times_list d ! ind" "times_list d ! iref" sr display lin tol u w]
      by simp
    with \<open>ind \<noteq> iref\<close> ie show ?thesis by auto
  next
    fix tbl qc
    assume "version3A_loop lp d iref sr display lin tol ies (qc0 \<and> qc)
                    (save_timestamps_npy (ap ef) tbl sr
                       (snd (sync_probe_front_times lp (times_list d ! ind)
                               (times_list d ! iref) sr display lin tol w))) = (Inl e, w')"
    from Cons.IH [OF this] show ?thesis by auto
  qed
qed

lemma loop_qc_all:
  assumes "version3A_loop lp d iref sr display lin tol ies qc0 w = (Inr b, w')"
  shows "b \<longleftrightarrow> qc0 \<and> (\<forall>ie\<in>set ies. fst ie \<noteq> iref \<longrightarrow>
           (\<exists>tbl. fst (sync_probe_front_times lp (times_list d ! fst ie) (times_list d ! iref) sr
                         display lin tol u) = Inr (tbl, True)))"
  using assms
proof (induction ies arbitrary: qc0 w)
  case Nil
  then show ?case by simp
next
  case (Cons ie ies)
  obtain ind ef where ie: "ie = (ind, ef)" by (cases ie)
  from loop_step [OF Cons.prems [unfolded ie]] show ?case
  proof (elim disjE conjE exE)
    assume "ind = iref" "version3A_loop lp d iref sr display lin tol ies qc0
              (save_timestamps_npy (ap ef) [(0, 0), (1, 1)] sr w) = (Inr b, w')"
    from Cons.IH [OF this(2)] this(1) ie show ?thesis by simp
  next
    fix e' :: error
    assume "Inr b = Inl e'"
    then show ?thesis by simp
  next
    fix tbl qc
    assume ne: "ind \<noteq> iref"
      and c: "fst (sync_probe_front_times lp (times_list d ! ind) (times_list d ! iref) sr
                display lin tol w) = Inr (tbl, qc)"
      and l: "version3A_loop lp d iref sr display lin tol ies (qc0 \<and> qc)
                    (save_timestamps_npy (ap ef) tbl sr
                       (snd (sync_probe_front_times lp (times_list d ! ind)
                               (times_list d ! iref) sr display lin tol w))) = (Inr b, w')"
    from c have cu: "fst (sync_probe_front_times lp (times_list d ! ind) (times_list d ! iref) sr
              display lin tol u) = Inr (tbl, qc)"
      using spft_world_indep [of lp "times_list d ! ind" "times_list d ! iref" sr display lin tol u w]
      by simp
    from Cons.IH [OF l] ne ie cu show ?thesis by auto
  qed
qed

lemma loop_files:
  assumes "version3A_loop lp d iref sr display lin tol ies qc0 w = (Inr b, w')"
    and "distinct (map (\<lambda>ie. ap (snd ie)) ies)"
    and "(ind, ef) \<in> set ies"
  shows "\<exists>tbl. (if ind = iref then tbl = [(0, 0), (1, 1)]
               else \<exists>qc. fst (sync_probe_front_times lp (times_list d ! ind)
                                (times_list d ! iref) sr display lin tol u) = Inr (tbl, qc))
           \<and> files w' (SyncFile (ap ef)) = Some tbl
           \<and> files w' (TimestampsFile (ap ef)) = Some (map (\<lambda>row. (fst row * sr, snd row)) tbl)"
  using assms
proof (induction ies arbitrary: qc0 w)
  case Nil
  then show ?case by simp
next
  case (Cons ie ies)
  obtain ind' ef' where ie: "ie = (ind', ef')" by (cases ie)
  from Cons.prems(2) ie have dist: "distinct (map (\<lambda>ie. ap (snd ie)) ies)"
    and notin: "ap ef' \<notin> set (map (\<lambda>ie. ap (snd ie)) ies)" by simp_all
  from loop_step [OF Cons.prems(1) [unfolded ie]] show ?case
  proof (elim disjE conjE exE)
    assume eq: "ind' = iref"
      and l: "version3A_loop lp d iref sr display lin tol ies qc0
              (save_timestamps_npy (ap ef') [(0, 0), (1, 1)] sr w) = (Inr b, w')"
    show ?thesis
    proof (cases "(ind, ef) = (ind', ef')")
      case True
      with loop_frame [OF l notin] eq show ?thesis by (simp add: files_save_same)
    next
      case False
      with Cons.prems(3) ie have "(ind, ef) \<in> set ies" by auto
      from Cons.IH [OF l dist this] show ?thesis .
    qed
  next
    fix e' :: error
    assume "Inr b = Inl e'"
    then show ?thesis by simp
  next
    fix tbl qc
    assume ne: "ind' \<noteq> iref"
      and c: "fst (sync_probe_front_times lp (times_list d ! ind') (times_list d ! iref) sr
                display lin tol w) = Inr (tbl, qc)"
      and l: "version3A_loop lp d iref sr display lin tol ies (qc0 \<and> qc)
                    (save_timestamps_npy (ap ef') tbl sr
                       (snd (sync_probe_front_times lp (times_list d ! ind')
                               (times_list d ! iref) sr display lin tol w))) = (Inr b, w')"
    from c have cu: "fst (sync_probe_front_times lp (times_list d ! ind') (times_list d ! iref) sr
              display lin tol u) = Inr (tbl, qc)"
      using spft_world_indep [of lp "times_list d ! ind'" "times_list d ! iref" sr display lin tol u w]
      by simp
    show ?thesis
    proof (cases "(ind, ef) = (ind', ef')")
      case True
      with loop_frame [OF l notin] ne cu show ?thesis by (auto simp: files_save_same)
    next
      case False
      with Cons.prems(3) ie have "(ind, ef) \<in> set ies" by auto
      from Cons.IH [OF l dist this] show ?thesis .
    qed
  qed
qed


lemma get_sync_fronts_shape:
  assumes "get_sync_fronts aux efs d = Inr (Some d')"
  shows "nsync d' = nsync d @ map (\<lambda>ef. length (channels (sync_obj ef))) efs
       \<and> length (times_list d') = length (times_list d) + length efs"
  using assms
proof (induction efs arbitrary: d)
  case Nil
  then show ?case by simp
next
  case (Cons ef efs)
  then show ?case
    by (auto simp: Let_def split: option.splits if_splits)
qed

lemma choose_fronts_shape:
  assumes "choose_fronts efs w = (Inr d, w1)"
  shows "nsync d = map (\<lambda>ef. length (channels (sync_obj ef))) efs
       \<and> length (times_list d) = length efs"
  using assms
  by (auto simp: choose_fronts_def Let_def dest!: get_sync_fronts_shape
           split: sum.splits option.splits if_splits)

lemma argmax_first_maximum:
  assumes "a \<noteq> []"
  shows "argmax a < length a"
    and "\<forall>j<length a. a ! j \<le> a ! argmax a"
    and "\<forall>j<argmax a. a ! j < a ! argmax a"
proof -
  let ?m = "Max (set a)"
  from assms have "?m \<in> set a" by simp
  then have "\<not> (\<forall>v\<in>set a. v \<noteq> ?m)" by blast
  then have "takeWhile (\<lambda>v. v \<noteq> ?m) a \<noteq> a" by simp
  then have "length (takeWhile (\<lambda>v. v \<noteq> ?m) a) \<noteq> length a" by (metis takeWhile_eq_take take_all_iff order_refl)
  with length_takeWhile_le [of "\<lambda>v. v \<noteq> ?m" a]
  show lt: "argmax a < length a" by (simp add: argmax_def)
  from nth_length_takeWhile [of "\<lambda>v. v \<noteq> ?m" a] lt
  have at: "a ! argmax a = ?m" by (simp add: argmax_def)
  show "\<forall>j<length a. a ! j \<le> a ! argmax a"
    unfolding at by simp
  show "\<forall>j<argmax a. a ! j < a ! argmax a"
  proof (intro allI impI)
    fix j assume j: "j < argmax a"
    then have "j < length (takeWhile (\<lambda>v. v \<noteq> ?m) a)" by (simp add: argmax_def)
    then have "takeWhile (\<lambda>v. v \<noteq> ?m) a ! j \<in> set (takeWhile (\<lambda>v. v \<noteq> ?m) a)"
      and "takeWhile (\<lambda>v. v \<noteq> ?m) a ! j = a ! j"
      by (rule nth_mem, rule takeWhile_nth)
    then have "a ! j \<noteq> ?m" by (auto dest: set_takeWhileD)
    moreover from j lt have "a ! j \<le> ?m" by simp
    ultimately show "a ! j < a ! argmax a" unfolding at by simp
  qed
qed

lemma chop_nsync [simp]: "nsync (fst (chop d w)) = nsync d"
  by (simp add: chop_def Let_def)

lemma version3A_unfold:
  assumes "2 \<le> length (ephys_files ses)"
    and "choose_fronts (ephys_files ses) w = (Inr d0, w1)"
  shows "version3A lp ses display lin tol w =
           version3A_loop lp (fst (chop d0 w1)) (argmax (nsync d0))
             (fs (ephys_files ses ! argmax (nsync d0))) display lin tol
             (enumerate 0 (ephys_files ses)) True (snd (chop d0 w1))"
proof -
  obtain d w2 where c: "chop d0 w1 = (d, w2)" by (cases "chop d0 w1")
  then have "nsync d = nsync d0" using chop_nsync [of d0 w1] by simp
  with assms c show ?thesis by (simp add: version3A_def Let_def)
qed

subsection \<open>The reference probe, the truncation and the camera fallback\<close>

lemma files_session_3A: "ephys_files session_3A = [probe00, probe01]"
  by (simp add: session_3A_def)

lemma choose_fronts_probes:
  "choose_fronts [probe00, probe01] w =
     (Inr \<lparr>times_list = [[1, 2, 3], [3 / 2, 7 / 2]], nsync = [3, 5]\<rparr>, w)"
  by (simp add: choose_fronts_def probe00_def probe01_def select_mask_def)

lemma choose_fronts_session_3A:
  "choose_fronts (ephys_files session_3A) w =
     (Inr \<lparr>times_list = [[1, 2, 3], [3 / 2, 7 / 2]], nsync = [3, 5]\<rparr>, w)"
  unfolding files_session_3A by (rule choose_fronts_probes)

lemma chop_session_3A:
  "chop \<lparr>times_list = [[1, 2, 3], [3 / 2, 7 / 2]], nsync = [3, 5]\<rparr> w
     = (\<lparr>times_list = [[1, 2], [3 / 2, 7 / 2]], nsync = [3, 5]\<rparr>,
        logger WarningDifferentPulseNumbers w)"
  by (simp add: chop_def)

lemma argmax_session_3A: "argmax [3, 5] = 1"
  by (simp add: argmax_def)

lemma spft_session_3A:
  "sync_probe_front_times lp [1, 2] [3 / 2, 7 / 2] 30000 (Flag False) True (21 / 10) w
     = (Inr ([(0, - (1 / 2)), (1, 3 / 2)], True), w)"
  by (simp add: sync_probe_front_times_def polyfit_def polyval_def interp1d_def
        call_linear_def searchsorted_def py_nth_def Let_def)

lemma enumerate_session_3A: "enumerate 0 [probe00, probe01] = [(0, probe00), (1, probe01)]"
  by (simp add: enumerate_eq_zip upt_rec)

lemma version3A_session_3A:
  "version3A lp session_3A (Flag False) True (21 / 10) w =
     (Inr True,
      save_timestamps_npy (ap probe01) [(0, 0), (1, 1)] 30000
        (save_timestamps_npy (ap probe00) [(0, - (1 / 2)), (1, 3 / 2)] 30000
           (logger WarningDifferentPulseNumbers w)))"
proof -
  have f: "fs probe01 = 30000" by (simp add: probe01_def)
  show ?thesis
    unfolding version3A_def choose_fronts_session_3A
    by (simp add: chop_session_3A argmax_session_3A files_session_3A enumerate_session_3A f
          spft_session_3A)
qed

lemma ap_session_3A: "ap probe00 \<noteq> ap probe01"
  by (simp add: probe00_def probe01_def)

text \<open>
  C3 (as the code has it). In a session of at least two probes for which the fronts are
  found, the loop of \<^verbatim>\<open>version3A\<close> runs with a reference probe \<open>iref\<close> that has the largest
  number of sync events over all its channels (\<^verbatim>\<open>len(sync.channels)\<close>), and every probe
  before it has strictly fewer: the first probe with the most sync pulses. The number of
  fronts on the chosen channel plays no part.
\<close>

theorem version3A_reference:
  assumes n: "2 \<le> length (ephys_files ses)"
    and cf: "choose_fronts (ephys_files ses) w = (Inr d0, w1)"
  shows "\<exists>iref<length (ephys_files ses).
      (\<forall>j<length (ephys_files ses).
          length (channels (sync_obj (ephys_files ses ! j)))
            \<le> length (channels (sync_obj (ephys_files ses ! iref))))
    \<and> (\<forall>j<iref.
          length (channels (sync_obj (ephys_files ses ! j)))
            < length (channels (sync_obj (ephys_files ses ! iref))))
    \<and> version3A lp ses display lin tol w =
          version3A_loop lp (fst (chop d0 w1)) iref (fs (ephys_files ses ! iref)) display lin tol
            (enumerate 0 (ephys_files ses)) True (snd (chop d0 w1))"
proof -
  let ?efs = "ephys_files ses"
  let ?a = "map (\<lambda>ef. length (channels (sync_obj ef))) ?efs"
  from choose_fronts_shape [OF cf] have ns: "nsync d0 = ?a" by simp
  from n have ne: "?a \<noteq> []" by auto
  from argmax_first_maximum [OF ne]
  have lt: "argmax ?a < length ?efs"
    and mx: "\<forall>j<length ?efs. ?a ! j \<le> ?a ! argmax ?a"
    and fi: "\<forall>j<argmax ?a. ?a ! j < ?a ! argmax ?a"
    by simp_all
  have 1: "\<forall>j<length ?efs. length (channels (sync_obj (?efs ! j)))
             \<le> length (channels (sync_obj (?efs ! argmax ?a)))"
    using mx lt by simp
  have 2: "\<forall>j<argmax ?a. length (channels (sync_obj (?efs ! j)))
             < length (channels (sync_obj (?efs ! argmax ?a)))"
    using fi lt by simp
  from version3A_unfold [OF n cf, of lp display lin tol] lt 1 2 show ?thesis
    unfolding ns by blast
qed


theorem version3A_reference_witness:
  "\<exists>iref<length (ephys_files session_3A).
      (\<forall>j<length (ephys_files session_3A).
          length (channels (sync_obj (ephys_files session_3A ! j)))
            \<le> length (channels (sync_obj (ephys_files session_3A ! iref))))
    \<and> (\<forall>j<iref.
          length (channels (sync_obj (ephys_files session_3A ! j)))
            < length (channels (sync_obj (ephys_files session_3A ! iref))))
    \<and> version3A no_filter session_3A (Flag False) True (21 / 10) empty_world =
          version3A_loop no_filter
            (fst (chop \<lparr>times_list = [[1, 2, 3], [3 / 2, 7 / 2]], nsync = [3, 5]\<rparr> empty_world))
            iref (fs (ephys_files session_3A ! iref)) (Flag False) True (21 / 10)
            (enumerate 0 (ephys_files session_3A)) True
            (snd (chop \<lparr>times_list = [[1, 2, 3], [3 / 2, 7 / 2]], nsync = [3, 5]\<rparr> empty_world))"
  by (rule version3A_reference) (simp_all add: files_session_3A choose_fronts_probes)

theorem reference_not_most_fronts_on_channel:
  "fst (choose_fronts (ephys_files session_3A) empty_world)
     = Inr \<lparr>times_list = [[1, 2, 3], [3 / 2, 7 / 2]], nsync = [3, 5]\<rparr>
   \<and> version3A no_filter session_3A (Flag False) True (21 / 10) empty_world
     = version3A_loop no_filter \<lparr>times_list = [[1, 2], [3 / 2, 7 / 2]], nsync = [3, 5]\<rparr>
         1 30000 (Flag False) True (21 / 10) [(0, probe00), (1, probe01)] True
         (logger WarningDifferentPulseNumbers empty_world)
   \<and> files (snd (version3A no_filter session_3A (Flag False) True (21 / 10) empty_world))
        (SyncFile (ap probe01)) = Some [(0, 0), (1, 1)]
   \<and> files (snd (version3A no_filter session_3A (Flag False) True (21 / 10) empty_world))
        (SyncFile (ap probe00)) = Some [(0, - (1 / 2)), (1, 3 / 2)]"
proof -
  have f: "fs probe01 = 30000" by (simp add: probe01_def)
  have loop: "version3A no_filter session_3A (Flag False) True (21 / 10) empty_world
     = version3A_loop no_filter \<lparr>times_list = [[1, 2], [3 / 2, 7 / 2]], nsync = [3, 5]\<rparr>
         1 30000 (Flag False) True (21 / 10) [(0, probe00), (1, probe01)] True
         (logger WarningDifferentPulseNumbers empty_world)"
    unfolding version3A_def choose_fronts_session_3A
    by (simp add: chop_session_3A argmax_session_3A files_session_3A enumerate_session_3A f
          del: version3A_loop.simps)
  have saved: "files (snd (version3A no_filter session_3A (Flag False) True (21 / 10) empty_world))
        (SyncFile (ap probe01)) = Some [(0, 0), (1, 1)]
   \<and> files (snd (version3A no_filter session_3A (Flag False) True (21 / 10) empty_world))
        (SyncFile (ap probe00)) = Some [(0, - (1 / 2)), (1, 3 / 2)]"
    unfolding version3A_session_3A using ap_session_3A
    by (simp add: files_save_timestamps_npy)
  from loop saved show ?thesis
    unfolding choose_fronts_session_3A by simp
qed

text \<open>
  C4 (as the code has it). In a run of \<^verbatim>\<open>version3A\<close> over at least two probes with
  distinct files that returns, the sync file of the reference probe holds the table
  \<open>[[0, 0], [1, 1]]\<close> and its timestamps file holds \<open>[[0, 0], [sr, 1]]\<close>, where \<open>sr\<close> is the
  sampling rate of the reference probe: the identity with its first column in samples.
\<close>

theorem version3A_reference_tables:
  assumes n: "2 \<le> length (ephys_files ses)"
    and dist: "distinct (map ap (ephys_files ses))"
    and run: "version3A lp ses display lin tol w = (Inr b, w')"
  shows "\<exists>d0 w1. choose_fronts (ephys_files ses) w = (Inr d0, w1)
     \<and> argmax (nsync d0) < length (ephys_files ses)
     \<and> files w' (SyncFile (ap (ephys_files ses ! argmax (nsync d0)))) = Some [(0, 0), (1, 1)]
     \<and> files w' (TimestampsFile (ap (ephys_files ses ! argmax (nsync d0))))
         = Some [(0, 0), (fs (ephys_files ses ! argmax (nsync d0)), 1)]"
proof -
  let ?efs = "ephys_files ses"
  obtain r0 w1 where c: "choose_fronts ?efs w = (r0, w1)" by (cases "choose_fronts ?efs w")
  with run n obtain d0 where d0: "r0 = Inr d0"
    by (cases r0) (auto simp: version3A_def Let_def)
  with c have cf: "choose_fronts ?efs w = (Inr d0, w1)" by simp
  let ?iref = "argmax (nsync d0)"
  from choose_fronts_shape [OF cf] n have "nsync d0 \<noteq> []" "length (nsync d0) = length ?efs"
    by auto
  with argmax_first_maximum(1) [of "nsync d0"] have lt: "?iref < length ?efs" by simp
  from version3A_unfold [OF n cf, of lp display lin tol] run
  have loop: "version3A_loop lp (fst (chop d0 w1)) ?iref (fs (?efs ! ?iref)) display lin tol
             (enumerate 0 ?efs) True (snd (chop d0 w1)) = (Inr b, w')"
    by simp
  have d: "distinct (map (\<lambda>ie. ap (snd ie)) (enumerate 0 ?efs))"
    using dist by (simp flip: map_map [unfolded comp_def])
  have m: "(?iref, ?efs ! ?iref) \<in> set (enumerate 0 ?efs)"
    using lt by (simp add: in_set_enumerate_eq)
  from loop_files [OF loop d m] cf lt show ?thesis by auto
qed


theorem version3A_reference_tables_witness:
  "\<exists>d0 w1. choose_fronts (ephys_files session_3A) empty_world = (Inr d0, w1)
     \<and> argmax (nsync d0) < length (ephys_files session_3A)
     \<and> files (save_timestamps_npy (ap probe01) [(0, 0), (1, 1)] 30000
                (save_timestamps_npy (ap probe00) [(0, - (1 / 2)), (1, 3 / 2)] 30000
                   (logger WarningDifferentPulseNumbers empty_world)))
          (SyncFile (ap (ephys_files session_3A ! argmax (nsync d0)))) = Some [(0, 0), (1, 1)]
     \<and> files (save_timestamps_npy (ap probe01) [(0, 0), (1, 1)] 30000
                (save_timestamps_npy (ap probe00) [(0, - (1 / 2)), (1, 3 / 2)] 30000
                   (logger WarningDifferentPulseNumbers empty_world)))
          (TimestampsFile (ap (ephys_files session_3A ! argmax (nsync d0))))
         = Some [(0, 0), (fs (ephys_files session_3A ! argmax (nsync d0)), 1)]"
proof (rule version3A_reference_tables)
  show "2 \<le> length (ephys_files session_3A)" by (simp add: files_session_3A)
  show "distinct (map ap (ephys_files session_3A))"
    using ap_session_3A by (simp add: files_session_3A)
  show "version3A no_filter session_3A (Flag False) True (21 / 10) empty_world =
     (Inr True,
      save_timestamps_npy (ap probe01) [(0, 0), (1, 1)] 30000
        (save_timestamps_npy (ap probe00) [(0, - (1 / 2)), (1, 3 / 2)] 30000
           (logger WarningDifferentPulseNumbers empty_world)))"
    by (rule version3A_session_3A)
qed

theorem reference_timestamps_not_identity:
  "fst (version3A no_filter session_3A (Flag False) True (21 / 10) empty_world) = Inr True
   \<and> files (snd (version3A no_filter session_3A (Flag False) True (21 / 10) empty_world))
        (SyncFile (ap probe01)) = Some [(0, 0), (1, 1)]
   \<and> files (snd (version3A no_filter session_3A (Flag False) True (21 / 10) empty_world))
        (TimestampsFile (ap probe01)) = Some [(0, 0), (30000, 1)]
   \<and> files (snd (version3A no_filter session_3A (Flag False) True (21 / 10) empty_world))
        (TimestampsFile (ap probe01)) \<noteq> Some [(0, 0), (1, 1)]"
  unfolding version3A_session_3A using ap_session_3A
  by (simp add: files_save_timestamps_npy)

lemma remdups_two:
  assumes "x \<in> set xs" "y \<in> set xs" "x \<noteq> y"
  shows "1 < length (remdups xs)"
proof -
  have "\<not> card (set xs) \<le> Suc 0"
    using assms by (auto simp: card_le_Suc0_iff_eq)
  then show ?thesis by (simp add: length_remdups_card_conv)
qed

lemma chop_times:
  "times_list (fst (chop d w)) = map (take (Min (set (map length (times_list d))))) (times_list d)"
  by (simp add: chop_def Let_def)

lemma chop_log:
  "set (log w) \<subseteq> set (log (snd (chop d w)))"
  by (auto simp: chop_def Let_def)

lemma chop_warning:
  assumes "s \<in> set (times_list d)" "s' \<in> set (times_list d)" "length s \<noteq> length s'"
  shows "WarningDifferentPulseNumbers \<in> set (log (snd (chop d w)))"
proof -
  from assms have "1 < length (remdups (map length (times_list d)))"
    by (intro remdups_two [of "length s" _ "length s'"]) auto
  then show ?thesis by (simp add: chop_def Let_def)
qed

text \<open>
  C5. In a session of at least two probes with distinct files for which the fronts are
  found, let \<open>m\<close> be the least length of the streams of the chosen channel. Every stream
  cut to its first \<open>m\<close> entries has \<open>m\<close> entries. Where two streams differ in length the
  warning is in the log at the end of the run. The run raises an exception only where
  the fit of a probe other than the reference on the first \<open>m\<close> entries of its stream and
  of the reference's stream raises it; and where the run returns, the sync file of every
  such probe holds the control points of that fit.
\<close>

theorem version3A_truncation:
  assumes n: "2 \<le> length (ephys_files ses)"
    and dist: "distinct (map ap (ephys_files ses))"
    and cf: "choose_fronts (ephys_files ses) w = (Inr d0, w1)"
    and run: "version3A lp ses display lin tol w = (r, w')"
  shows "let streams = times_list d0;
             m = Min (set (map length streams));
             iref = argmax (nsync d0);
             sr = fs (ephys_files ses ! iref)
         in (\<forall>s\<in>set streams. length (take m s) = m)
          \<and> ((\<exists>s\<in>set streams. \<exists>s'\<in>set streams. length s \<noteq> length s')
               \<longrightarrow> WarningDifferentPulseNumbers \<in> set (log w'))
          \<and> (case r of
                Inl e \<Rightarrow>
                  \<exists>ind<length (ephys_files ses). ind \<noteq> iref \<and>
                    fst (sync_probe_front_times lp (take m (streams ! ind))
                           (take m (streams ! iref)) sr display lin tol u) = Inl e
              | Inr b \<Rightarrow>
                  \<forall>ind<length (ephys_files ses). ind \<noteq> iref \<longrightarrow>
                    (\<exists>tbl qc.
                       fst (sync_probe_front_times lp (take m (streams ! ind))
                              (take m (streams ! iref)) sr display lin tol u) = Inr (tbl, qc)
                       \<and> files w' (SyncFile (ap (ephys_files ses ! ind))) = Some tbl))"
proof -
  let ?efs = "ephys_files ses"
  let ?streams = "times_list d0"
  let ?m = "Min (set (map length ?streams))"
  let ?iref = "argmax (nsync d0)"
  let ?sr = "fs (?efs ! ?iref)"
  let ?d = "fst (chop d0 w1)"
  from choose_fronts_shape [OF cf] n
  have ns: "nsync d0 \<noteq> []" "length (nsync d0) = length ?efs" and ls: "length ?streams = length ?efs"
    by auto
  with argmax_first_maximum(1) [of "nsync d0"] have lt: "?iref < length ?efs" by simp
  have col: "times_list ?d ! i = take ?m (?streams ! i)" if "i < length ?efs" for i
    using that ls by (simp add: chop_times)
  from version3A_unfold [OF n cf, of lp display lin tol] run
  have loop: "version3A_loop lp ?d ?iref ?sr display lin tol
             (enumerate 0 ?efs) True (snd (chop d0 w1)) = (r, w')"
    by simp
  have 1: "\<forall>s\<in>set ?streams. length (take ?m s) = ?m"
  proof
    fix s assume "s \<in> set ?streams"
    then have "?m \<le> length s" by (intro Min_le) auto
    then show "length (take ?m s) = ?m" by simp
  qed
  have 2: "(\<exists>s\<in>set ?streams. \<exists>s'\<in>set ?streams. length s \<noteq> length s')
               \<longrightarrow> WarningDifferentPulseNumbers \<in> set (log w')"
    using chop_warning [of _ d0 _ w1] loop_log [OF loop] by blast
  have 3: "case r of
                Inl e \<Rightarrow>
                  \<exists>ind<length ?efs. ind \<noteq> ?iref \<and>
                    fst (sync_probe_front_times lp (take ?m (?streams ! ind))
                           (take ?m (?streams ! ?iref)) ?sr display lin tol u) = Inl e
              | Inr b \<Rightarrow>
                  \<forall>ind<length ?efs. ind \<noteq> ?iref \<longrightarrow>
                    (\<exists>tbl qc.
                       fst (sync_probe_front_times lp (take ?m (?streams ! ind))
                              (take ?m (?streams ! ?iref)) ?sr display lin tol u) = Inr (tbl, qc)
                       \<and> files w' (SyncFile (ap (?efs ! ind))) = Some tbl)"
  proof (cases r)
    case (Inl e)
    with loop_Inl [of lp ?d ?iref ?sr display lin tol "enumerate 0 ?efs" True _ e w' u] loop
    obtain ie where ie: "ie \<in> set (enumerate 0 ?efs)" "fst ie \<noteq> ?iref"
      "fst (sync_probe_front_times lp (times_list ?d ! fst ie) (times_list ?d ! ?iref) ?sr
              display lin tol u) = Inl e"
      by blast
    from ie(1) have "fst ie < length ?efs" by (simp add: in_set_enumerate_eq)
    with ie lt Inl show ?thesis by (auto simp: col)
  next
    case (Inr b)
    have d: "distinct (map (\<lambda>ie. ap (snd ie)) (enumerate 0 ?efs))"
      using dist by (simp flip: map_map [unfolded comp_def])
    have "\<exists>tbl qc.
             fst (sync_probe_front_times lp (take ?m (?streams ! ind))
                    (take ?m (?streams ! ?iref)) ?sr display lin tol u) = Inr (tbl, qc)
             \<and> files w' (SyncFile (ap (?efs ! ind))) = Some tbl"
      if "ind < length ?efs" "ind \<noteq> ?iref" for ind
    proof -
      from that have m: "(ind, ?efs ! ind) \<in> set (enumerate 0 ?efs)"
        by (simp add: in_set_enumerate_eq)
      from loop_files [OF loop [unfolded Inr] d m, of u] that lt show ?thesis
        by (auto simp: col)
    qed
    with Inr show ?thesis by simp
  qed
  from 1 2 3 show ?thesis unfolding Let_def by blast
qed


theorem version3A_truncation_witness:
  "let streams = times_list \<lparr>times_list = [[1, 2, 3], [3 / 2, 7 / 2]], nsync = [3, 5]\<rparr>;
       m = Min (set (map length streams));
       iref = argmax (nsync \<lparr>times_list = [[1, 2, 3], [3 / 2, 7 / 2]], nsync = [3, 5]\<rparr>);
       sr = fs (ephys_files session_3A ! iref)
   in (\<forall>s\<in>set streams. length (take m s) = m)
    \<and> ((\<exists>s\<in>set streams. \<exists>s'\<in>set streams. length s \<noteq> length s')
         \<longrightarrow> WarningDifferentPulseNumbers
               \<in> set (log (save_timestamps_npy (ap probe01) [(0, 0), (1, 1)] 30000
                             (save_timestamps_npy (ap probe00) [(0, - (1 / 2)), (1, 3 / 2)] 30000
                                (logger WarningDifferentPulseNumbers empty_world)))))
    \<and> (case Inr True of
          Inl e \<Rightarrow>
            \<exists>ind<length (ephys_files session_3A). ind \<noteq> iref \<and>
              fst (sync_probe_front_times no_filter (take m (streams ! ind))
                     (take m (streams ! iref)) sr (Flag False) True (21 / 10) empty_world) = Inl e
        | Inr b \<Rightarrow>
            \<forall>ind<length (ephys_files session_3A). ind \<noteq> iref \<longrightarrow>
              (\<exists>tbl qc.
                 fst (sync_probe_front_times no_filter (take m (streams ! ind))
                        (take m (streams ! iref)) sr (Flag False) True (21 / 10) empty_world)
                   = Inr (tbl, qc)
                 \<and> files (save_timestamps_npy (ap probe01) [(0, 0), (1, 1)] 30000
                             (save_timestamps_npy (ap probe00) [(0, - (1 / 2)), (1, 3 / 2)] 30000
                                (logger WarningDifferentPulseNumbers empty_world)))
                      (SyncFile (ap (ephys_files session_3A ! ind))) = Some tbl))"
proof (rule version3A_truncation [where w = empty_world])
  show "2 \<le> length (ephys_files session_3A)" by (simp add: files_session_3A)
  show "distinct (map ap (ephys_files session_3A))"
    using ap_session_3A by (simp add: files_session_3A)
  show "choose_fronts (ephys_files session_3A) empty_world =
          (Inr \<lparr>times_list = [[1, 2, 3], [3 / 2, 7 / 2]], nsync = [3, 5]\<rparr>, empty_world)"
    by (rule choose_fronts_session_3A)
  show "version3A no_filter session_3A (Flag False) True (21 / 10) empty_world =
     (Inr True,
      save_timestamps_npy (ap probe01) [(0, 0), (1, 1)] 30000
        (save_timestamps_npy (ap probe00) [(0, - (1 / 2)), (1, 3 / 2)] 30000
           (logger WarningDifferentPulseNumbers empty_world)))"
    by (rule version3A_session_3A)
qed

lemma polyfit_error:
  "polyfit x y = Inl e \<Longrightarrow> e = TypeError \<or> e = LinAlgError"
  by (auto simp: polyfit_def Let_def split: if_splits)

lemma interp1d_error:
  "interp1d pts = Inl e \<Longrightarrow> e = ValueError ''interp1d''"
  by (auto simp: interp1d_def split: if_splits)

lemma np_interp_error:
  "np_interp x xp fp = Inl e \<Longrightarrow> e = ValueError ''interp''"
  by (auto simp: np_interp_def split: if_splits)

lemma np_pad_median_error:
  "np_pad_median a p k = Inl e \<Longrightarrow> e = ValueError ''pad''"
  by (auto simp: np_pad_median_def split: if_splits)

lemma smooth_residual_error:
  "smooth_residual lp tref residual = Inl e \<Longrightarrow>
     e = IndexError \<or> e = ValueError ''interp'' \<or> e = ValueError ''pad''"
  by (auto simp: smooth_residual_def Let_def
           dest: np_interp_error np_pad_median_error split: if_splits sum.splits)

lemma spft_error:
  assumes "fst (sync_probe_front_times lp t tref sr display lin tol w) = Inl e"
  shows "e \<noteq> ValueError ''Cameras started before ephys, no sync possible''"
  using assms
  by (auto simp: sync_probe_front_times_def Let_def
           dest: polyfit_error smooth_residual_error interp1d_error
           split: sum.splits prod.splits if_splits)

text \<open>
  C6 (as the code has it). In a session of at least two probes where \<^verbatim>\<open>frame2ttl\<close> is not
  found and the fronts of \<^verbatim>\<open>right_camera\<close> are found on every probe, the run raises
  \<^verbatim>\<open>ValueError('Cameras started before ephys, no sync possible')\<close> if and only if the least
  first timestamp of the camera streams is at most 0.2 seconds; otherwise it goes on to
  the loop over the probes with the camera streams.
\<close>

theorem camera_fallback:
  assumes n: "2 \<le> length (ephys_files ses)"
    and f2: "get_sync_fronts ''frame2ttl'' (ephys_files ses) \<lparr>times_list = [], nsync = []\<rparr>
               = Inr None"
    and rc: "get_sync_fronts ''right_camera'' (ephys_files ses) \<lparr>times_list = [], nsync = []\<rparr>
               = Inr (Some d)"
  shows "(fst (version3A lp ses display lin tol w)
            = Inl (ValueError ''Cameras started before ephys, no sync possible'')
          \<longleftrightarrow> Min (set (map hd (times_list d))) \<le> 2 / 10)
       \<and> version3A lp ses display lin tol w =
           (if Min (set (map hd (times_list d))) \<le> 2 / 10
            then (Inl (ValueError ''Cameras started before ephys, no sync possible''),
                  logger WarningFrame2ttlNotDetected w)
            else version3A_loop lp (fst (chop d (logger WarningFrame2ttlNotDetected w)))
                   (argmax (nsync d)) (fs (ephys_files ses ! argmax (nsync d))) display lin tol
                   (enumerate 0 (ephys_files ses)) True
                   (snd (chop d (logger WarningFrame2ttlNotDetected w))))"
proof (cases "Min (set (map hd (times_list d))) \<le> 2 / 10")
  case True
  with f2 rc have "choose_fronts (ephys_files ses) w
      = (Inl (ValueError ''Cameras started before ephys, no sync possible''),
         logger WarningFrame2ttlNotDetected w)"
    by (simp add: choose_fronts_def Let_def)
  with n True show ?thesis by (simp add: version3A_def Let_def)
next
  case False
  with f2 rc have cf: "choose_fronts (ephys_files ses) w
      = (Inr d, logger WarningFrame2ttlNotDetected w)"
    by (simp add: choose_fronts_def Let_def)
  note un = version3A_unfold [OF n cf, of lp display lin tol]
  have "fst (version3A lp ses display lin tol w)
          \<noteq> Inl (ValueError ''Cameras started before ephys, no sync possible'')"
  proof
    assume a: "fst (version3A lp ses display lin tol w)
                 = Inl (ValueError ''Cameras started before ephys, no sync possible'')"
    obtain w' where "version3A lp ses display lin tol w
                 = (Inl (ValueError ''Cameras started before ephys, no sync possible''), w')"
      using a by (cases "version3A lp ses display lin tol w") auto
    with un loop_Inl [of lp _ _ _ display lin tol _ True _ _ w' w]
    obtain t tref sr where
      "fst (sync_probe_front_times lp t tref sr display lin tol w)
         = Inl (ValueError ''Cameras started before ephys, no sync possible'')"
      by metis
    from spft_error [OF this] show False by simp
  qed
  with False un show ?thesis by simp
qed

lemma f2_session_camera:
  "get_sync_fronts ''frame2ttl'' (ephys_files session_camera) \<lparr>times_list = [], nsync = []\<rparr>
     = Inr None"
  by (simp add: session_camera_def camera_probe_def)

lemma rc_session_camera:
  "get_sync_fronts ''right_camera'' (ephys_files session_camera) \<lparr>times_list = [], nsync = []\<rparr>
     = Inr (Some \<lparr>times_list = [[1 / 10, 1, 2], [3 / 20, 1, 2]], nsync = [3, 3]\<rparr>)"
  by (simp add: session_camera_def camera_probe_def select_mask_def)

lemma f2_session_camera_late:
  "get_sync_fronts ''frame2ttl'' (ephys_files session_camera_late)
     \<lparr>times_list = [], nsync = []\<rparr> = Inr None"
  by (simp add: session_camera_late_def camera_probe_def)

lemma rc_session_camera_late:
  "get_sync_fronts ''right_camera'' (ephys_files session_camera_late)
     \<lparr>times_list = [], nsync = []\<rparr>
     = Inr (Some \<lparr>times_list = [[1 / 2, 1, 2], [3 / 5, 1, 2]], nsync = [3, 3]\<rparr>)"
  by (simp add: session_camera_late_def camera_probe_def select_mask_def)

theorem camera_fallback_witness:
  "(fst (version3A no_filter session_camera (Flag False) True (21 / 10) empty_world)
       = Inl (ValueError ''Cameras started before ephys, no sync possible'')
    \<and> version3A no_filter session_camera (Flag False) True (21 / 10) empty_world
       = (Inl (ValueError ''Cameras started before ephys, no sync possible''),
          logger WarningFrame2ttlNotDetected empty_world))
   \<and> (fst (version3A no_filter session_camera_late (Flag False) True (21 / 10) empty_world)
       \<noteq> Inl (ValueError ''Cameras started before ephys, no sync possible'')
    \<and> version3A no_filter session_camera_late (Flag False) True (21 / 10) empty_world
       = version3A_loop no_filter
           (fst (chop \<lparr>times_list = [[1 / 2, 1, 2], [3 / 5, 1, 2]], nsync = [3, 3]\<rparr>
                   (logger WarningFrame2ttlNotDetected empty_world)))
           (argmax (nsync \<lparr>times_list = [[1 / 2, 1, 2], [3 / 5, 1, 2]], nsync = [3, 3]\<rparr>))
           (fs (ephys_files session_camera_late
                  ! argmax (nsync \<lparr>times_list = [[1 / 2, 1, 2], [3 / 5, 1, 2]], nsync = [3, 3]\<rparr>)))
           (Flag False) True (21 / 10)
           (enumerate 0 (ephys_files session_camera_late)) True
           (snd (chop \<lparr>times_list = [[1 / 2, 1, 2], [3 / 5, 1, 2]], nsync = [3, 3]\<rparr>
                   (logger WarningFrame2ttlNotDetected empty_world))))"
proof -
  have n: "2 \<le> length (ephys_files session_camera)"
    "2 \<le> length (ephys_files session_camera_late)"
    by (simp_all add: session_camera_def session_camera_late_def)
  have me: "Min (set (map hd (times_list
              \<lparr>times_list = [[1 / 10, 1, 2], [3 / 20, 1, 2]], nsync = [3, 3]\<rparr>))) \<le> 2 / 10"
    by simp
  have ml: "\<not> Min (set (map hd (times_list
              \<lparr>times_list = [[1 / 2, 1, 2], [3 / 5, 1, 2]], nsync = [3, 3]\<rparr>))) \<le> 2 / 10"
    by simp
  note ce = camera_fallback [OF n(1) f2_session_camera rc_session_camera,
      of no_filter "Flag False" True "21 / 10" empty_world]
  note cl = camera_fallback [OF n(2) f2_session_camera_late rc_session_camera_late,
      of no_filter "Flag False" True "21 / 10" empty_world]
  from ce me have e1: "fst (version3A no_filter session_camera (Flag False) True (21 / 10) empty_world)
       = Inl (ValueError ''Cameras started before ephys, no sync possible'')"
    by blast
  from ce have e2: "version3A no_filter session_camera (Flag False) True (21 / 10) empty_world
       = (Inl (ValueError ''Cameras started before ephys, no sync possible''),
          logger WarningFrame2ttlNotDetected empty_world)"
    unfolding if_P [OF me] by (rule conjunct2)
  from cl ml have l1: "fst (version3A no_filter session_camera_late (Flag False) True (21 / 10) empty_world)
       \<noteq> Inl (ValueError ''Cameras started before ephys, no sync possible'')"
    by blast
  from cl have l2: "version3A no_filter session_camera_late (Flag False) True (21 / 10) empty_world
       = version3A_loop no_filter
           (fst (chop \<lparr>times_list = [[1 / 2, 1, 2], [3 / 5, 1, 2]], nsync = [3, 3]\<rparr>
                   (logger WarningFrame2ttlNotDetected empty_world)))
           (argmax (nsync \<lparr>times_list = [[1 / 2, 1, 2], [3 / 5, 1, 2]], nsync = [3, 3]\<rparr>))
           (fs (ephys_files session_camera_late
                  ! argmax (nsync \<lparr>times_list = [[1 / 2, 1, 2], [3 / 5, 1, 2]], nsync = [3, 3]\<rparr>)))
           (Flag False) True (21 / 10)
           (enumerate 0 (ephys_files session_camera_late)) True
           (snd (chop \<lparr>times_list = [[1 / 2, 1, 2], [3 / 5, 1, 2]], nsync = [3, 3]\<rparr>
                   (logger WarningFrame2ttlNotDetected empty_world)))"
    unfolding if_not_P [OF ml] by (rule conjunct2)
  from e1 e2 l1 l2 show ?thesis by blast
qed

theorem camera_error_with_positive_start:
  "fst (version3A no_filter session_camera (Flag False) True (21 / 10) empty_world)
     = Inl (ValueError ''Cameras started before ephys, no sync possible'')
   \<and> get_sync_fronts ''frame2ttl'' (ephys_files session_camera) \<lparr>times_list = [], nsync = []\<rparr>
     = Inr None
   \<and> get_sync_fronts ''right_camera'' (ephys_files session_camera) \<lparr>times_list = [], nsync = []\<rparr>
     = Inr (Some \<lparr>times_list = [[1 / 10, 1, 2], [3 / 20, 1, 2]], nsync = [3, 3]\<rparr>)
   \<and> 0 < Min (set (map hd [[1 / 10, 1, 2], [3 / 20, 1, 2 :: real]]))"
proof -
  have "choose_fronts (ephys_files session_camera) empty_world
      = (Inl (ValueError ''Cameras started before ephys, no sync possible''),
         logger WarningFrame2ttlNotDetected empty_world)"
    by (simp add: choose_fronts_def f2_session_camera rc_session_camera Let_def)
  then have "fst (version3A no_filter session_camera (Flag False) True (21 / 10) empty_world)
     = Inl (ValueError ''Cameras started before ephys, no sync possible'')"
    by (simp add: version3A_def Let_def session_camera_def)
  then show ?thesis
    by (simp add: f2_session_camera rc_session_camera)
qed

lemma sync_returns_None:
  "fst (sync gsf lp ses kw w) = Inr r \<Longrightarrow> r = None"
  by (auto simp: sync_def Let_def split: prod.splits sum.splits if_splits)

lemma ball_enumerate:
  "(\<forall>ie\<in>set (enumerate 0 xs). P (fst ie)) \<longleftrightarrow> (\<forall>i<length xs. P i)"
proof (intro iffI allI impI ballI)
  fix i assume a: "\<forall>ie\<in>set (enumerate 0 xs). P (fst ie)" and i: "i < length xs"
  from i have "(i, xs ! i) \<in> set (enumerate 0 xs)" by (simp add: in_set_enumerate_eq)
  with a show "P i" by fastforce
next
  fix ie assume a: "\<forall>i<length xs. P i" and "ie \<in> set (enumerate 0 xs)"
  then have "fst ie < length xs" by (simp add: in_set_enumerate_eq)
  with a show "P (fst ie)" by simp
qed

lemma version3A_qc_all:
  assumes n: "2 \<le> length (ephys_files ses)"
    and cf: "choose_fronts (ephys_files ses) w = (Inr d0, w1)"
    and run: "version3A lp ses display lin tol w = (Inr b, w')"
  shows "b \<longleftrightarrow>
     (\<forall>ind<length (ephys_files ses). ind \<noteq> argmax (nsync d0) \<longrightarrow>
        (\<exists>tbl. fst (sync_probe_front_times lp (times_list (fst (chop d0 w1)) ! ind)
                      (times_list (fst (chop d0 w1)) ! argmax (nsync d0))
                      (fs (ephys_files ses ! argmax (nsync d0))) display lin tol u)
                = Inr (tbl, True)))"
proof -
  from version3A_unfold [OF n cf, of lp display lin tol] run
  have loop: "version3A_loop lp (fst (chop d0 w1)) (argmax (nsync d0))
             (fs (ephys_files ses ! argmax (nsync d0))) display lin tol
             (enumerate 0 (ephys_files ses)) True (snd (chop d0 w1)) = (Inr b, w')"
    by simp
  from loop_qc_all [OF loop, of u]
    ball_enumerate [of "ephys_files ses" "\<lambda>ind. ind \<noteq> argmax (nsync d0) \<longrightarrow>
        (\<exists>tbl. fst (sync_probe_front_times lp (times_list (fst (chop d0 w1)) ! ind)
                      (times_list (fst (chop d0 w1)) ! argmax (nsync d0))
                      (fs (ephys_files ses ! argmax (nsync d0))) display lin tol u)
                = Inr (tbl, True))"]
  show ?thesis by simp
qed

text \<open>
  C2 (what the code does where the claim fails). On the session of two probes above,
  \<^verbatim>\<open>version3A\<close> returns \<open>True\<close>, the conjunction of the checks as \<open>version3A_qc_all\<close> shows
  in general; \<^verbatim>\<open>sync\<close>, called with the same arguments, returns \<^verbatim>\<open>None\<close>, as it does on
  every session by \<open>sync_returns_None\<close>.
\<close>

theorem sync_drops_result:
  "fst (version3A no_filter session_3A (Flag False) True (21 / 10) empty_world) = Inr True
   \<and> fst (sync (\<lambda>s c. []) no_filter session_3A
            \<lparr>kw_display = Some (Flag False), kw_linear = Some True, kw_tol = None\<rparr> empty_world)
     = Inr None"
proof -
  have v: "neuropixel_version session_3A = ''3A''" by (simp add: session_3A_def)
  show ?thesis by (simp add: sync_def Let_def version3A_session_3A v)
qed

end
